theory Spec2Isabelle
  imports Complex_Main "HOL-Library.Char_ord" "HOL-Library.List_Lexorder"
    "HOL-Library.Product_Lexorder"
begin

section \<open>Strings\<close>

text \<open>
  A Python \<open>str\<close> is modelled as a \<open>string\<close> whose characters are the code points
  U+0000 to U+00FF (Latin-1), so that \<open>length\<close> counts code points as Python's \<open>len\<close>
  does. Strings are compared as Python compares them: lexicographically by code point
  (\<open>Char_ord\<close>, \<open>List_Lexorder\<close>).
\<close>

definition lower_char :: "char \<Rightarrow> char" where
  \<comment> \<open>\<open>str.lower\<close> on one code point below U+0100: A-Z and the accented capitals
      U+00C0 to U+00DE (the multiplication sign U+00D7 apart) move up by 32.\<close>
  "lower_char c =
     (let n = (of_char c :: nat)
      in if (65 \<le> n \<and> n \<le> 90) \<or> (192 \<le> n \<and> n \<le> 222 \<and> n \<noteq> 215)
         then char_of (n + 32) else c)"

definition lower :: "string \<Rightarrow> string" where
  "lower s = map lower_char s"

definition is_space :: "char \<Rightarrow> bool" where
  \<comment> \<open>\<open>str.isspace\<close> below U+0100: TAB to CR, FS to US, space, NEL, NBSP.\<close>
  "is_space c =
     (let n = (of_char c :: nat)
      in (9 \<le> n \<and> n \<le> 13) \<or> (28 \<le> n \<and> n \<le> 32) \<or> n = 133 \<or> n = 160)"

definition strip :: "string \<Rightarrow> string" where
  "strip s = rev (dropWhile is_space (rev (dropWhile is_space s)))"

definition or_else :: "string option \<Rightarrow> string \<Rightarrow> string" where
  \<comment> \<open>\<open>x or d\<close> on an optional string: \<open>None\<close> and the empty string are both falsy.\<close>
  "or_else x d = (case x of None \<Rightarrow> d | Some s \<Rightarrow> if s = [] then d else s)"

section \<open>Data model (models/schemas.py)\<close>

text \<open>
  Several classes share field names (\<open>name\<close>, \<open>location\<close>, \<open>description\<close>,
  \<open>technologies\<close>); each record's fields carry the class as a prefix.
\<close>

record Experience =
  exp_title :: string
  exp_company :: string
  exp_location :: "string option"
  exp_start_date :: "string option"
  exp_end_date :: "string option"
  exp_current :: bool
  exp_description :: "string list"
  exp_technologies :: "string list"

record PersonalInfo =
  info_name :: "string option"
  info_email :: "string option"
  info_phone :: "string option"
  info_location :: "string option"
  info_linkedin :: "string option"
  info_github :: "string option"
  info_website :: "string option"

text \<open>
  \<open>Skill.confidence\<close> is a Python float. The mergers only compare confidences and take
  their maximum, which is exact on floats, so a confidence is modelled as a rational
  (a NaN, which is not ordered, has no counterpart).
\<close>

record Skill =
  skill_name :: string
  skill_category :: "string option"
  skill_frequency :: int
  skill_confidence :: rat

record Education =
  edu_degree :: string
  edu_institution :: string
  edu_location :: "string option"
  edu_graduation_date :: "string option"
  edu_gpa :: "string option"

record Project =
  proj_name :: string
  proj_description :: string
  proj_technologies :: "string list"
  proj_url :: "string option"

text \<open>
  \<open>ParsedResume\<close> is parametric in how a project is held: the parser builds projects as
  values (\<open>Project ParsedResume\<close>); the merger keeps and updates the \<open>Project\<close> objects
  it is given, so there a project is the address of an object in a store
  (\<open>ref ParsedResume\<close>).
\<close>

record 'p ParsedResume =
  personal_info :: PersonalInfo
  summary :: "string option"
  skills :: "Skill list"
  experience :: "Experience list"
  education :: "Education list"
  projects :: "'p list"
  certifications :: "string list"
  languages :: "string list"

record MergeSettings =
  include_sections :: "string list"
  max_skills :: int
  sort_experience_by :: string
  deduplicate_threshold :: int

type_synonym ref = nat

type_synonym store = "ref \<Rightarrow> Project"

record MergeRequest =
  req_resumes :: "ref ParsedResume list"
  req_settings :: "MergeSettings option"

record MergeResponse =
  success :: bool
  merged_resume :: "ref ParsedResume"

datatype HTTPException = HTTPException (status_code: int) (detail: string)

section \<open>Insertion-ordered dictionaries\<close>

text \<open>
  A Python \<open>dict\<close> iterates in insertion order; it is an association list with
  distinct keys. Assigning to a key that is present replaces the value where it stands;
  a new key goes to the end.
\<close>

fun dict_set :: "('k \<times> 'v) list \<Rightarrow> 'k \<Rightarrow> 'v \<Rightarrow> ('k \<times> 'v) list" where
  "dict_set [] k v = [(k, v)]"
| "dict_set ((k', v') # m) k v =
     (if k' = k then (k, v) # m else (k', v') # dict_set m k v)"

definition dict_upd :: "('k \<times> 'v) list \<Rightarrow> 'k \<Rightarrow> ('v \<Rightarrow> 'v) \<Rightarrow> ('k \<times> 'v) list" where
  \<comment> \<open>update in place of the value stored under a key\<close>
  "dict_upd m k f = map (\<lambda>(k', v). if k' = k then (k', f v) else (k', v)) m"

section \<open>Sorting\<close>

definition sort_reverse :: "('a \<Rightarrow> 'k::linorder) \<Rightarrow> 'a list \<Rightarrow> 'a list" where
  \<comment> \<open>\<open>list.sort(key=f, reverse=True)\<close>: the list is reversed, sorted by a stable
      ascending sort, and reversed again, so equal keys keep their order.\<close>
  "sort_reverse f xs = rev (sort_key f (rev xs))"

section \<open>Fuzzy matching (rapidfuzz)\<close>

fun lcs :: "'a list \<Rightarrow> 'a list \<Rightarrow> nat" where
  "lcs [] ys = 0"
| "lcs (x # xs) [] = 0"
| "lcs (x # xs) (y # ys) =
     (if x = y then Suc (lcs xs ys) else max (lcs (x # xs) ys) (lcs xs (y # ys)))"

definition ratio :: "string \<Rightarrow> string \<Rightarrow> rat" where
  \<comment> \<open>Modelled from the spec: \<open>rapidfuzz.fuzz.ratio\<close> is a library function outside the
      repository. It is the "0-100, symmetric character-level ratio" of section 4.4:
      the normalised Indel similarity \<open>100 * (1 - d / (len1 + len2))\<close>, where
      \<open>d = len1 + len2 - 2 * lcs\<close> counts insertions and deletions, and 100 for two
      empty strings. The library computes it in floating point; here it is exact.\<close>
  "ratio s1 s2 =
     (if length s1 + length s2 = 0 then 100
      else 100 * of_nat (2 * lcs s1 s2) / of_nat (length s1 + length s2))"

fun extractOne_loop ::
  "string \<Rightarrow> (nat \<times> string) list \<Rightarrow> (string \<Rightarrow> string \<Rightarrow> rat) \<Rightarrow> rat \<Rightarrow>
   (string \<times> rat \<times> nat) option \<Rightarrow> (string \<times> rat \<times> nat) option" where
  "extractOne_loop query [] scorer score_cutoff result = result"
| "extractOne_loop query ((i, choice) # rest) scorer score_cutoff result =
     (let score = scorer query choice
      in if score_cutoff \<le> score \<and>
            (case result of None \<Rightarrow> True | Some (c, best, j) \<Rightarrow> best < score)
         then (if score = 100 then Some (choice, score, i)
               else extractOne_loop query rest scorer score (Some (choice, score, i)))
         else (if score = 100 then result
               else extractOne_loop query rest scorer score_cutoff result))"

definition extractOne ::
  "string \<Rightarrow> string list \<Rightarrow> (string \<Rightarrow> string \<Rightarrow> rat) \<Rightarrow> rat \<Rightarrow> (string \<times> rat \<times> nat) option" where
  \<comment> \<open>Modelled from the spec: \<open>rapidfuzz.process.extractOne\<close> is a library function
      outside the repository. Section 4.4: the score of the query against every choice,
      in the order of the choices; the best choice wins if its score is at least the
      cutoff, the first one among equals; the scan stops at a perfect score. The result
      is \<open>(choice, score, index)\<close> or \<open>None\<close>.\<close>
  "extractOne query choices scorer score_cutoff =
     extractOne_loop query (zip [0 ..< length choices] choices) scorer score_cutoff None"

section \<open>The section mergers (services/merger.py)\<close>

definition truthy :: "string option \<Rightarrow> bool" where
  \<comment> \<open>the truth value of an optional string: \<open>None\<close> and \<open>''\<close> are falsy\<close>
  "truthy x = (case x of None \<Rightarrow> False | Some s \<Rightarrow> s \<noteq> [])"

definition take_first :: "string option \<Rightarrow> string option \<Rightarrow> string option" where
  \<comment> \<open>\<open>if info.f and not merged.f: merged.f = info.f\<close>, as the new value of \<open>merged.f\<close>\<close>
  "take_first merged_f info_f = (if truthy info_f \<and> \<not> truthy merged_f then info_f else merged_f)"

definition info_step :: "PersonalInfo \<Rightarrow> PersonalInfo \<Rightarrow> PersonalInfo" where
  "info_step info merged =
     \<lparr> info_name = take_first (info_name merged) (info_name info),
       info_email = take_first (info_email merged) (info_email info),
       info_phone = take_first (info_phone merged) (info_phone info),
       info_location = take_first (info_location merged) (info_location info),
       info_linkedin = take_first (info_linkedin merged) (info_linkedin info),
       info_github = take_first (info_github merged) (info_github info),
       info_website = take_first (info_website merged) (info_website info) \<rparr>"

definition empty_info :: PersonalInfo where
  \<comment> \<open>\<open>PersonalInfo()\<close>\<close>
  "empty_info =
     \<lparr> info_name = None, info_email = None, info_phone = None, info_location = None,
       info_linkedin = None, info_github = None, info_website = None \<rparr>"

definition merge_personal_info :: "PersonalInfo list \<Rightarrow> PersonalInfo" where
  "merge_personal_info infos = fold info_step infos empty_info"

subsection \<open>Skills\<close>

definition matched_key_of ::
  "string \<Rightarrow> string list \<Rightarrow> int \<Rightarrow> string option" where
  \<comment> \<open>lines 63-72 (and 152-161): \<open>matched_key\<close> after the lookup, given the keys of
      the map in insertion order\<close>
  "matched_key_of normalized_name keys threshold =
     (if keys \<noteq> []
      then (case extractOne normalized_name keys ratio (of_int threshold) of
              None \<Rightarrow> None
            | Some (choice, score, i) \<Rightarrow> Some choice)
      else None)"

definition skill_step :: "int \<Rightarrow> Skill \<Rightarrow> (string \<times> Skill) list \<Rightarrow> (string \<times> Skill) list" where
  \<comment> \<open>the body of the inner loop. \<open>if matched_key:\<close> tests the truth value of the key,
      so a key that is the empty string takes the \<open>else\<close> branch.\<close>
  "skill_step threshold skill skill_map =
     (let normalized_name = strip (lower (skill_name skill));
          matched_key = matched_key_of normalized_name (map fst skill_map) threshold
      in if truthy matched_key
         then dict_upd skill_map (or_else matched_key [])
                (\<lambda>d. d\<lparr> skill_frequency := skill_frequency d + 1,
                         skill_confidence := max (skill_confidence d) (skill_confidence skill) \<rparr>)
         else dict_set skill_map normalized_name
                \<lparr> skill_name = skill_name skill,
                  skill_category = skill_category skill,
                  skill_frequency = 1,
                  skill_confidence = skill_confidence skill \<rparr>)"

definition collect_skills :: "Skill list list \<Rightarrow> int \<Rightarrow> (string \<times> Skill) list" where
  \<comment> \<open>\<open>skill_map\<close> after the two nested loops\<close>
  "collect_skills skill_lists threshold =
     fold (\<lambda>skills m. fold (skill_step threshold) skills m) skill_lists []"

definition skill_sort_key :: "Skill \<Rightarrow> int \<times> rat" where
  \<comment> \<open>\<open>lambda s: (s.frequency, s.confidence)\<close>\<close>
  "skill_sort_key s = (skill_frequency s, skill_confidence s)"

definition merge_skills :: "Skill list list \<Rightarrow> int \<Rightarrow> Skill list" where
  "merge_skills skill_lists threshold =
     sort_reverse skill_sort_key (map snd (collect_skills skill_lists threshold))"

subsection \<open>Experience\<close>

definition signature :: "Experience \<Rightarrow> string" where
  \<comment> \<open>\<open>f"{exp.company.lower()}_{exp.title.lower()}_{exp.start_date or ''}"\<close>\<close>
  "signature e =
     lower (exp_company e) @ ''_'' @ lower (exp_title e) @ ''_'' @
     or_else (exp_start_date e) ''''"

definition exp_step :: "Experience \<Rightarrow> string set \<times> Experience list \<Rightarrow> string set \<times> Experience list" where
  \<comment> \<open>the body of the inner loop, on the state \<open>(seen_signatures, merged_experience)\<close>\<close>
  "exp_step e st =
     (case st of (seen_signatures, merged_experience) \<Rightarrow>
        if signature e \<notin> seen_signatures
        then (insert (signature e) seen_signatures, merged_experience @ [e])
        else (seen_signatures, merged_experience))"

definition exp_sort_key :: "Experience \<Rightarrow> bool \<times> string" where
  \<comment> \<open>\<open>lambda e: (e.current, e.start_date or "0000")\<close>\<close>
  "exp_sort_key e = (exp_current e, or_else (exp_start_date e) ''0000'')"

definition collect_experience :: "Experience list list \<Rightarrow> Experience list" where
  \<comment> \<open>the two nested loops: \<open>merged_experience\<close> before it is sorted\<close>
  "collect_experience exp_lists =
     snd (fold (\<lambda>experiences st. fold exp_step experiences st) exp_lists ({}, []))"

definition merge_experience :: "Experience list list \<Rightarrow> Experience list" where
  "merge_experience exp_lists = sort_reverse exp_sort_key (collect_experience exp_lists)"


subsection \<open>Education\<close>

definition edu_key :: "Education \<Rightarrow> string" where
  \<comment> \<open>\<open>f"{edu.institution.lower()}_{edu.degree.lower()}"\<close>\<close>
  "edu_key edu = lower (edu_institution edu) @ ''_'' @ lower (edu_degree edu)"

definition edu_step :: "Education \<Rightarrow> string set \<times> Education list \<Rightarrow> string set \<times> Education list" where
  "edu_step edu st =
     (case st of (seen, merged_education) \<Rightarrow>
        if edu_key edu \<notin> seen
        then (insert (edu_key edu) seen, merged_education @ [edu])
        else (seen, merged_education))"

definition merge_education :: "Education list list \<Rightarrow> Education list" where
  "merge_education edu_lists =
     snd (fold (\<lambda>educations st. fold edu_step educations st) edu_lists ({}, []))"

subsection \<open>Projects\<close>

text \<open>
  \<open>_merge_projects\<close> stores the \<open>Project\<close> objects of its input in \<open>project_map\<close> and
  assigns to their attributes. The objects live in a store; the input lists and the map
  hold addresses, and the merger returns the store it leaves behind.
\<close>

definition list_of_set :: "string list \<Rightarrow> string list" where
  \<comment> \<open>\<open>list(set(xs))\<close>: the distinct elements of \<open>xs\<close>. Python leaves their order
      open; the model keeps the last occurrence of each.\<close>
  "list_of_set xs = remdups xs"

definition proj_step ::
  "int \<Rightarrow> ref \<Rightarrow> (string \<times> ref) list \<times> store \<Rightarrow> (string \<times> ref) list \<times> store" where
  \<comment> \<open>the body of the inner loop, on the state \<open>(project_map, store)\<close>. The matched key
      is one of the keys of the map, so the lookup \<open>project_map[matched_key]\<close> finds
      it: the \<open>None\<close> case of the lookup is never taken.\<close>
  "proj_step threshold proj st =
     (case st of (project_map, h) \<Rightarrow>
        let normalized_name = strip (lower (proj_name (h proj)));
            matched_key = matched_key_of normalized_name (map fst project_map) threshold
        in if truthy matched_key
           then (case map_of project_map (or_else matched_key []) of
                   None \<Rightarrow> (project_map, h)
                 | Some existing \<Rightarrow>
                     let h1 = (if proj_description (h proj) \<noteq> proj_description (h existing)
                               then h(existing := (h existing)
                                      \<lparr> proj_description :=
                                          proj_description (h existing) @ '' | '' @
                                          proj_description (h proj) \<rparr>)
                               else h);
                         h2 = h1(existing := (h1 existing)
                                  \<lparr> proj_technologies :=
                                      list_of_set (proj_technologies (h1 existing) @
                                                   proj_technologies (h1 proj)) \<rparr>)
                     in (project_map, h2))
           else (dict_set project_map normalized_name proj, h))"

definition collect_projects ::
  "ref list list \<Rightarrow> int \<Rightarrow> store \<Rightarrow> (string \<times> ref) list \<times> store" where
  "collect_projects proj_lists threshold h =
     fold (\<lambda>projs st. fold (proj_step threshold) projs st) proj_lists ([], h)"

definition merge_projects :: "ref list list \<Rightarrow> int \<Rightarrow> store \<Rightarrow> ref list \<times> store" where
  \<comment> \<open>\<open>list(project_map.values())\<close>, with the store after the loops\<close>
  "merge_projects proj_lists threshold h =
     (case collect_projects proj_lists threshold h of
        (project_map, h') \<Rightarrow> (map snd project_map, h'))"

section \<open>The merge orchestrator\<close>

definition slice_to :: "'a list \<Rightarrow> int \<Rightarrow> 'a list" where
  \<comment> \<open>\<open>xs[:n]\<close>; a negative \<open>n\<close> counts from the end\<close>
  "slice_to xs n =
     (if 0 \<le> n then take (nat n) xs else take (length xs - nat (- n)) xs)"

definition merge ::
  "ref ParsedResume list \<Rightarrow> MergeSettings \<Rightarrow> store \<Rightarrow> ref ParsedResume \<times> store" where
  "merge resumes settings h =
     (let merged_personal = merge_personal_info (map personal_info resumes);
          merged_skills = merge_skills (map skills resumes) (deduplicate_threshold settings);
          merged_experience = merge_experience (map experience resumes);
          merged_education = merge_education (map education resumes);
          (merged_projects, h') =
             merge_projects (map projects resumes) (deduplicate_threshold settings) h;
          merged_skills =
            (if max_skills settings \<noteq> 0 \<and> max_skills settings < int (length merged_skills)
             then slice_to merged_skills (max_skills settings)
             else merged_skills)
      in (\<lparr> personal_info = merged_personal,
            summary = None,
            skills = merged_skills,
            experience = merged_experience,
            education = merged_education,
            projects = merged_projects,
            certifications = [],
            languages = [] \<rparr>, h'))"

subsection \<open>The merge endpoint (main.py)\<close>

definition merge_resumes ::
  "MergeRequest \<Rightarrow> store \<Rightarrow> (HTTPException + MergeResponse) \<times> store" where
  \<comment> \<open>\<open>request.settings\<close> is optional: on \<open>None\<close> the first attribute access in
      \<open>merge\<close> (line 15, before any project is touched) raises, and the handler turns
      the exception into a 500.\<close>
  "merge_resumes request h =
     (if length (req_resumes request) < 2
      then (Inl (HTTPException 400 ''Need at least 2 resumes to merge''), h)
      else (case req_settings request of
              None \<Rightarrow>
                (Inl (HTTPException 500
                   (''Error merging resumes: '' @
                    [CHR 0x27] @ ''NoneType'' @ [CHR 0x27] @ '' object has no attribute '' @
                    [CHR 0x27] @ ''deduplicate_threshold'' @ [CHR 0x27])), h)
            | Some settings \<Rightarrow>
                (case merge (req_resumes request) settings h of
                   (merged, h') \<Rightarrow>
                     (Inr \<lparr> success = True, merged_resume = merged \<rparr>, h'))))"


section \<open>Regular expressions (the \<open>re\<close> module)\<close>

text \<open>
  A pattern of the parser is held as the tree that \<open>re\<close> parses it into. The patterns
  of \<open>services/parser.py\<close> repeat single characters only (\<open>\d{3}\<close>, \<open>[\w-]+\<close>,
  \<open>.*?\<close>), and put \<open>?\<close> behind characters, groups and \<open>$\<close>; the tree has a node
  for each. Every pattern has at most one capturing group.
\<close>

datatype item =
    Lit char                  \<comment> \<open>a literal character\<close>
  | Cls "char \<Rightarrow> bool"        \<comment> \<open>a character class\<close>
  | AnyChar                   \<comment> \<open>\<open>.\<close>\<close>

datatype rx =
    Eps                                   \<comment> \<open>the empty pattern\<close>
  | One item
  | Rep item nat "nat option" bool        \<comment> \<open>\<open>x{m,n}\<close>, \<open>x+\<close>, \<open>x*?\<close>; the flag is \<open>True\<close> for greedy\<close>
  | Opt rx                                \<comment> \<open>\<open>r?\<close>\<close>
  | Seq rx rx
  | Alt rx rx
  | Grp rx                                \<comment> \<open>the capturing group\<close>
  | Eol                                   \<comment> \<open>\<open>$\<close>\<close>
  | Wb                                    \<comment> \<open>\<open>\b\<close>\<close>

datatype re_error = Nothing_to_repeat

fun rx_error :: "rx \<Rightarrow> re_error option" where
  \<comment> \<open>the error of compiling a pattern, if any: \<open>re\<close> refuses a repetition of a
      position (\<open>$\<close>, \<open>\b\<close>) with "nothing to repeat"\<close>
  "rx_error (Opt Eol) = Some Nothing_to_repeat"
| "rx_error (Opt Wb) = Some Nothing_to_repeat"
| "rx_error (Opt r) = rx_error r"
| "rx_error (Seq a b) = (case rx_error a of Some e \<Rightarrow> Some e | None \<Rightarrow> rx_error b)"
| "rx_error (Alt a b) = (case rx_error a of Some e \<Rightarrow> Some e | None \<Rightarrow> rx_error b)"
| "rx_error (Grp r) = rx_error r"
| "rx_error r = None"

definition is_digit :: "char \<Rightarrow> bool" where
  \<comment> \<open>\<open>\d\<close>\<close>
  "is_digit c = (let n = (of_char c :: nat) in 48 \<le> n \<and> n \<le> 57)"

definition is_upper_az :: "char \<Rightarrow> bool" where
  "is_upper_az c = (let n = (of_char c :: nat) in 65 \<le> n \<and> n \<le> 90)"

definition is_lower_az :: "char \<Rightarrow> bool" where
  "is_lower_az c = (let n = (of_char c :: nat) in 97 \<le> n \<and> n \<le> 122)"

definition is_word :: "char \<Rightarrow> bool" where
  \<comment> \<open>\<open>\w\<close> below U+0100: the alphanumeric code points and the underscore\<close>
  "is_word c =
     (let n = (of_char c :: nat)
      in is_digit c \<or> is_upper_az c \<or> is_lower_az c \<or> n = 95 \<or>
         n \<in> {170, 178, 179, 181, 185, 186, 188, 189, 190} \<or>
         (192 \<le> n \<and> n \<noteq> 215 \<and> n \<noteq> 247))"

definition upper_char :: "char \<Rightarrow> char" where
  \<comment> \<open>the upper-case partner of a code point, where it lies below U+0100\<close>
  "upper_char c =
     (let n = (of_char c :: nat)
      in if (97 \<le> n \<and> n \<le> 122) \<or> (224 \<le> n \<and> n \<le> 254 \<and> n \<noteq> 247)
         then char_of (n - 32) else c)"

fun item_ok :: "bool \<Rightarrow> bool \<Rightarrow> item \<Rightarrow> char \<Rightarrow> bool" where
  \<comment> \<open>does the character match the item, under the flags IGNORECASE and DOTALL\<close>
  "item_ok ignorecase dotall (Lit l) c =
     (if ignorecase then lower_char c = lower_char l else c = l)"
| "item_ok ignorecase dotall (Cls p) c =
     (if ignorecase then p c \<or> p (lower_char c) \<or> p (upper_char c) else p c)"
| "item_ok ignorecase dotall AnyChar c = (dotall \<or> c \<noteq> CHR 0x0A)"

type_synonym cap = "(nat \<times> nat) option"

fun rx_match :: "bool \<Rightarrow> bool \<Rightarrow> rx \<Rightarrow> string \<Rightarrow> nat \<Rightarrow> cap \<Rightarrow> (nat \<times> cap) list" where
  \<comment> \<open>the ways in which the pattern matches from position \<open>i\<close>, as end positions and
      the span of the group, in the order in which a backtracking matcher tries them\<close>
  "rx_match ic da Eps s i g = [(i, g)]"
| "rx_match ic da (One x) s i g =
     (if i < length s \<and> item_ok ic da x (s ! i) then [(Suc i, g)] else [])"
| "rx_match ic da (Rep x lo hi greedy) s i g =
     (let n = length (takeWhile (item_ok ic da x) (drop i s));
          top = (case hi of None \<Rightarrow> n | Some m \<Rightarrow> min m n);
          ends = map (\<lambda>k. (i + k, g)) [lo ..< Suc top]
      in if greedy then rev ends else ends)"
| "rx_match ic da (Opt r) s i g = rx_match ic da r s i g @ [(i, g)]"
| "rx_match ic da (Seq a b) s i g =
     concat (map (\<lambda>e. rx_match ic da b s (fst e) (snd e)) (rx_match ic da a s i g))"
| "rx_match ic da (Alt a b) s i g = rx_match ic da a s i g @ rx_match ic da b s i g"
| "rx_match ic da (Grp r) s i g = map (\<lambda>e. (fst e, Some (i, fst e))) (rx_match ic da r s i g)"
| "rx_match ic da Eol s i g =
     (if i = length s \<or> (Suc i = length s \<and> s ! i = CHR 0x0A) then [(i, g)] else [])"
| "rx_match ic da Wb s i g =
     (if (0 < i \<and> is_word (s ! (i - 1))) \<noteq> (i < length s \<and> is_word (s ! i))
      then [(i, g)] else [])"

fun first_match :: "bool \<Rightarrow> bool \<Rightarrow> rx \<Rightarrow> string \<Rightarrow> nat list \<Rightarrow> (nat \<times> nat \<times> cap) option" where
  "first_match ic da r s [] = None"
| "first_match ic da r s (i # rest) =
     (case rx_match ic da r s i None of
        [] \<Rightarrow> first_match ic da r s rest
      | e # _ \<Rightarrow> Some (i, fst e, snd e))"

definition re_search :: "rx \<Rightarrow> string \<Rightarrow> bool \<Rightarrow> bool \<Rightarrow> re_error + (nat \<times> nat \<times> cap) option" where
  \<comment> \<open>\<open>re.search(pattern, text, flags)\<close>: the pattern is compiled at the call, which
      raises on a pattern that is refused; the match is the first one at the leftmost
      start. The result is \<open>(start, end, group 1)\<close>.\<close>
  "re_search pattern text ignorecase dotall =
     (case rx_error pattern of
        Some e \<Rightarrow> Inl e
      | None \<Rightarrow> Inr (first_match ignorecase dotall pattern text [0 ..< Suc (length text)]))"

definition group0 :: "string \<Rightarrow> nat \<times> nat \<times> cap \<Rightarrow> string" where
  \<comment> \<open>\<open>match.group(0)\<close>\<close>
  "group0 text m = (case m of (i, j, g) \<Rightarrow> take (j - i) (drop i text))"

definition group1 :: "string \<Rightarrow> nat \<times> nat \<times> cap \<Rightarrow> string option" where
  \<comment> \<open>\<open>match.group(1)\<close>: \<open>None\<close> when the group took no part in the match\<close>
  "group1 text m =
     (case m of (i, j, g) \<Rightarrow>
        (case g of None \<Rightarrow> None | Some (a, b) \<Rightarrow> Some (take (b - a) (drop a text))))"

fun seqs :: "rx list \<Rightarrow> rx" where
  "seqs [] = Eps"
| "seqs [r] = r"
| "seqs (r # rs) = Seq r (seqs rs)"

fun alts :: "rx list \<Rightarrow> rx" where
  "alts [] = Eps"
| "alts [r] = r"
| "alts (r # rs) = Alt r (alts rs)"

definition str :: "string \<Rightarrow> rx" where
  \<comment> \<open>a run of literal characters\<close>
  "str cs = seqs (map (\<lambda>c. One (Lit c)) cs)"


section \<open>The parser (services/parser.py)\<close>

subsection \<open>Patterns and taxonomy\<close>

definition sep :: rx where
  \<comment> \<open>\<open>[-.\s]\<close>\<close>
  "sep = One (Cls (\<lambda>c. c = CHR ''-'' \<or> c = CHR ''.'' \<or> is_space c))"

definition digits :: "nat \<Rightarrow> nat \<Rightarrow> rx" where
  \<comment> \<open>\<open>\d{m,n}\<close>\<close>
  "digits m n = Rep (Cls is_digit) m (Some n) True"

definition email_pattern :: rx where
  \<comment> \<open>\<open>\b[A-Za-z0-9._%+-]+@[A-Za-z0-9.-]+\.[A-Z|a-z]{2,}\b\<close>\<close>
  "email_pattern =
     seqs [Wb,
           Rep (Cls (\<lambda>c. is_upper_az c \<or> is_lower_az c \<or> is_digit c \<or> c \<in> set ''._%+-'')) 1 None True,
           One (Lit (CHR ''@'')),
           Rep (Cls (\<lambda>c. is_upper_az c \<or> is_lower_az c \<or> is_digit c \<or> c \<in> set ''.-'')) 1 None True,
           One (Lit (CHR ''.'')),
           Rep (Cls (\<lambda>c. is_upper_az c \<or> c = CHR ''|'' \<or> is_lower_az c)) 2 None True,
           Wb]"

definition phone_pattern :: rx where
  \<comment> \<open>\<open>(\+?\d{1,3}[-.\s]?)?$$?\d{3}$$?[-.\s]?\d{3}[-.\s]?\d{4}\<close>\<close>
  "phone_pattern =
     seqs [Opt (Grp (seqs [Opt (One (Lit (CHR ''+''))), digits 1 3, Opt sep])),
           Eol, Opt Eol,
           digits 3 3,
           Eol, Opt Eol,
           Opt sep, digits 3 3, Opt sep, digits 4 4]"

definition handle :: rx where
  \<comment> \<open>\<open>[\w-]+\<close>\<close>
  "handle = Rep (Cls (\<lambda>c. is_word c \<or> c = CHR ''-'')) 1 None True"

definition linkedin_pattern :: rx where
  \<comment> \<open>\<open>linkedin\.com/in/[\w-]+\<close>\<close>
  "linkedin_pattern = seqs [str ''linkedin.com/in/'', handle]"

definition github_pattern :: rx where
  \<comment> \<open>\<open>github\.com/[\w-]+\<close>\<close>
  "github_pattern = seqs [str ''github.com/'', handle]"

definition skill_keywords :: "(string \<times> string list) list" where
  "skill_keywords =
     [(''programming'', [''python'', ''javascript'', ''java'', ''c++'', ''c#'', ''ruby'', ''php'',
                        ''swift'', ''kotlin'', ''go'', ''rust'', ''typescript'']),
      (''frontend'', [''react'', ''vue'', ''angular'', ''html'', ''css'', ''tailwind'', ''bootstrap'',
                     ''sass'', ''next.js'', ''nuxt'']),
      (''backend'', [''node.js'', ''express'', ''django'', ''flask'', ''fastapi'', ''spring'', ''rails'',
                    ''.net'']),
      (''database'', [''postgresql'', ''mysql'', ''mongodb'', ''redis'', ''sqlite'', ''dynamodb'',
                     ''firebase'']),
      (''cloud'', [''aws'', ''azure'', ''gcp'', ''vercel'', ''heroku'', ''docker'', ''kubernetes'']),
      (''tools'', [''git'', ''jira'', ''figma'', ''postman'', ''jenkins'', ''github actions''])]"

definition lazy_any :: rx where
  \<comment> \<open>\<open>(.*?)\<close>\<close>
  "lazy_any = Grp (Rep AnyChar 0 None False)"

definition exp_patterns :: "rx list" where
  \<comment> \<open>\<open>(?:experience|work history|employment)(.*?)(?:education|skills|projects|$)\<close> and
      \<open>(?:professional experience)(.*?)(?:education|skills|$)\<close>\<close>
  "exp_patterns =
     [seqs [alts [str ''experience'', str ''work history'', str ''employment''], lazy_any,
            alts [str ''education'', str ''skills'', str ''projects'', Eol]],
      seqs [str ''professional experience'', lazy_any,
            alts [str ''education'', str ''skills'', Eol]]]"

definition edu_pattern :: rx where
  \<comment> \<open>\<open>(?:education)(.*?)(?:experience|skills|projects|$)\<close>\<close>
  "edu_pattern =
     seqs [str ''education'', lazy_any,
           alts [str ''experience'', str ''skills'', str ''projects'', Eol]]"

definition proj_pattern :: rx where
  \<comment> \<open>\<open>(?:projects)(.*?)(?:experience|education|skills|$)\<close>\<close>
  "proj_pattern =
     seqs [str ''projects'', lazy_any,
           alts [str ''experience'', str ''education'', str ''skills'', Eol]]"

subsection \<open>String helpers\<close>

fun split_on :: "char \<Rightarrow> string \<Rightarrow> string list" where
  \<comment> \<open>\<open>s.split(c)\<close> for a separator of one character\<close>
  "split_on c [] = [[]]"
| "split_on c (x # xs) =
     (if x = c then [] # split_on c xs
      else (case split_on c xs of [] \<Rightarrow> [[x]] | w # ws \<Rightarrow> (x # w) # ws))"

fun contains :: "string \<Rightarrow> string \<Rightarrow> bool" where
  \<comment> \<open>\<open>k in t\<close> on strings\<close>
  "contains k [] = (k = [])"
| "contains k (x # xs) = (take (length k) (x # xs) = k \<or> contains k xs)"

fun title_from :: "bool \<Rightarrow> string \<Rightarrow> string" where
  \<comment> \<open>\<open>str.title\<close>, with the flag "the previous character is a letter". It is applied
      to the keywords of the taxonomy only, whose letters are a-z.\<close>
  "title_from prev [] = []"
| "title_from prev (c # cs) =
     (if is_upper_az c \<or> is_lower_az c
      then (if prev then lower_char c else upper_char c) # title_from True cs
      else c # title_from False cs)"

definition title :: "string \<Rightarrow> string" where
  "title s = title_from False s"

definition nth_or_empty :: "string list \<Rightarrow> nat \<Rightarrow> string" where
  \<comment> \<open>\<open>parts[n]\<close>, read only where the parser has checked that the part exists\<close>
  "nth_or_empty parts n = (if n < length parts then parts ! n else [])"

subsection \<open>The extractors\<close>

definition and_then :: "'e + 'a \<Rightarrow> ('a \<Rightarrow> 'e + 'b) \<Rightarrow> 'e + 'b" where
  \<comment> \<open>sequencing of statements that may raise: the rest runs on the value of the first,
      unless the first raised\<close>
  "and_then r f = (case r of Inl e \<Rightarrow> Inl e | Inr x \<Rightarrow> f x)"

definition parse_personal_info :: "string \<Rightarrow> re_error + PersonalInfo" where
  "parse_personal_info text =
     (let lines = split_on (CHR 0x0A) text;
          name = (case filter (\<lambda>line. strip line \<noteq> []) lines of
                    [] \<Rightarrow> None | line # _ \<Rightarrow> Some (strip line))
      in and_then (re_search email_pattern text False False) (\<lambda>email_match.
         and_then (re_search phone_pattern text False False) (\<lambda>phone_match.
         and_then (re_search linkedin_pattern text True False) (\<lambda>linkedin_match.
         and_then (re_search github_pattern text True False) (\<lambda>github_match.
           Inr \<lparr> info_name = name,
                 info_email = map_option (group0 text) email_match,
                 info_phone = map_option (group0 text) phone_match,
                 info_location = None,
                 info_linkedin = map_option (group0 text) linkedin_match,
                 info_github = map_option (group0 text) github_match,
                 info_website = None \<rparr>)))))"

definition parse_skills :: "string \<Rightarrow> Skill list" where
  "parse_skills text =
     (let text_lower = lower text
      in concat (map (\<lambda>(category, keywords).
           map (\<lambda>keyword. \<lparr> skill_name = title keyword, skill_category = Some category,
                              skill_frequency = 1, skill_confidence = 9 / 10 \<rparr>)
               (filter (\<lambda>keyword. contains keyword text_lower) keywords))
           skill_keywords))"

definition new_experience :: "string \<Rightarrow> Experience" where
  \<comment> \<open>the entry that a line with a date opens (lines 141-145)\<close>
  "new_experience line =
     (let has_bar = CHR ''|'' \<in> set line; parts = split_on (CHR ''|'') line
      in \<lparr> exp_title = (if has_bar then strip (nth_or_empty parts 0) else line),
           exp_company = (if has_bar \<and> 1 < length parts then strip (nth_or_empty parts 1)
                          else ''Unknown''),
           exp_location = None, exp_start_date = None, exp_end_date = None,
           exp_current = False, exp_description = [], exp_technologies = [] \<rparr>)"

definition exp_line ::
  "string \<Rightarrow> Experience option \<times> Experience list \<Rightarrow> re_error + Experience option \<times> Experience list" where
  \<comment> \<open>one line of the experience section, on the state \<open>(current_exp, experiences)\<close>\<close>
  "exp_line raw st =
     (case st of (current_exp, experiences) \<Rightarrow>
        let line = strip raw
        in if line = [] then Inr st
           else and_then (re_search (digits 4 4) line False False) (\<lambda>date_match.
                  if date_match \<noteq> None
                  then Inr (Some (new_experience line),
                            (case current_exp of None \<Rightarrow> experiences
                             | Some cur \<Rightarrow> experiences @ [cur]))
                  else (case current_exp of
                          None \<Rightarrow> Inr st
                        | Some cur \<Rightarrow>
                            Inr (Some (cur\<lparr> exp_description := exp_description cur @ [line] \<rparr>),
                                 experiences))))"

fun exp_lines ::
  "string list \<Rightarrow> Experience option \<times> Experience list \<Rightarrow> re_error + Experience option \<times> Experience list" where
  "exp_lines [] st = Inr st"
| "exp_lines (l # ls) st = and_then (exp_line l st) (exp_lines ls)"

fun parse_experience_from :: "rx list \<Rightarrow> string \<Rightarrow> re_error + Experience list" where
  \<comment> \<open>the loop over \<open>exp_patterns\<close>, which ends at the first pattern that matches\<close>
  "parse_experience_from [] text = Inr []"
| "parse_experience_from (pattern # rest) text =
     (case re_search pattern text True True of
        Inl e \<Rightarrow> Inl e
      | Inr None \<Rightarrow> parse_experience_from rest text
      | Inr (Some m) \<Rightarrow>
          (case exp_lines (split_on (CHR 0x0A) (case group1 text m of None \<Rightarrow> [] | Some t \<Rightarrow> t))
                  (None, []) of
             Inl e \<Rightarrow> Inl e
           | Inr (current_exp, experiences) \<Rightarrow>
               Inr (case current_exp of None \<Rightarrow> experiences
                    | Some cur \<Rightarrow> experiences @ [cur])))"

definition parse_experience :: "string \<Rightarrow> re_error + Experience list" where
  "parse_experience text = parse_experience_from exp_patterns text"

definition section_lines :: "string \<Rightarrow> nat \<times> nat \<times> cap \<Rightarrow> string list" where
  \<comment> \<open>the stripped lines of \<open>match.group(1)\<close> that are longer than 10 characters\<close>
  "section_lines text m =
     filter (\<lambda>line. line \<noteq> [] \<and> 10 < length line)
       (map strip (split_on (CHR 0x0A) (case group1 text m of None \<Rightarrow> [] | Some t \<Rightarrow> t)))"

definition parse_education :: "string \<Rightarrow> re_error + Education list" where
  "parse_education text =
     (case re_search edu_pattern text True True of
        Inl e \<Rightarrow> Inl e
      | Inr None \<Rightarrow> Inr []
      | Inr (Some m) \<Rightarrow>
          Inr (map (\<lambda>line. \<lparr> edu_degree = line, edu_institution = ''Parsed from resume'',
                              edu_location = None, edu_graduation_date = None, edu_gpa = None \<rparr>)
                 (section_lines text m)))"

definition parse_projects :: "string \<Rightarrow> re_error + Project list" where
  "parse_projects text =
     (case re_search proj_pattern text True True of
        Inl e \<Rightarrow> Inl e
      | Inr None \<Rightarrow> Inr []
      | Inr (Some m) \<Rightarrow>
          Inr (map (\<lambda>line.
                 let has_dash = CHR ''-'' \<in> set line; parts = split_on (CHR ''-'') line
                 in \<lparr> proj_name = (if has_dash then strip (nth_or_empty parts 0) else line),
                      proj_description = (if has_dash then strip (nth_or_empty parts 1) else line),
                      proj_technologies = [], proj_url = None \<rparr>)
                 (section_lines text m)))"

definition parse_text :: "string \<Rightarrow> re_error + Project ParsedResume" where
  \<comment> \<open>\<open>parse_resume\<close> from the text of the document on (lines 37-50)\<close>
  "parse_text text =
     and_then (parse_personal_info text) (\<lambda>info.
     and_then (Inr (parse_skills text)) (\<lambda>skills.
     and_then (parse_experience text) (\<lambda>experience.
     and_then (parse_education text) (\<lambda>education.
     and_then (parse_projects text) (\<lambda>projects.
       Inr \<lparr> personal_info = info, summary = None, skills = skills,
             experience = experience, education = education, projects = projects,
             certifications = [], languages = [] \<rparr>)))))"


section \<open>Constructors with the defaults of the schema\<close>

definition Experience_of :: "string \<Rightarrow> string \<Rightarrow> string option \<Rightarrow> bool \<Rightarrow> Experience" where
  \<comment> \<open>\<open>Experience(company=c, title=t, start_date=d, current=b)\<close>\<close>
  "Experience_of c t d b =
     \<lparr> exp_title = t, exp_company = c, exp_location = None, exp_start_date = d,
       exp_end_date = None, exp_current = b, exp_description = [], exp_technologies = [] \<rparr>"

definition Skill_of :: "string \<Rightarrow> rat \<Rightarrow> Skill" where
  \<comment> \<open>\<open>Skill(name=n, confidence=c)\<close>\<close>
  "Skill_of n c =
     \<lparr> skill_name = n, skill_category = Some ''general'', skill_frequency = 1,
       skill_confidence = c \<rparr>"

definition Project_of :: "string \<Rightarrow> string \<Rightarrow> string list \<Rightarrow> Project" where
  \<comment> \<open>\<open>Project(name=n, description=d, technologies=ts)\<close>\<close>
  "Project_of n d ts =
     \<lparr> proj_name = n, proj_description = d, proj_technologies = ts, proj_url = None \<rparr>"

definition Resume_of :: "Skill list \<Rightarrow> Experience list \<Rightarrow> 'p list \<Rightarrow> 'p ParsedResume" where
  \<comment> \<open>\<open>ParsedResume(personal_info=PersonalInfo(), skills=ss, experience=es, projects=ps)\<close>\<close>
  "Resume_of ss es ps =
     \<lparr> personal_info = empty_info, summary = None, skills = ss, experience = es,
       education = [], projects = ps, certifications = [], languages = [] \<rparr>"

definition Settings_of :: "int \<Rightarrow> int \<Rightarrow> MergeSettings" where
  \<comment> \<open>\<open>MergeSettings(max_skills=m, deduplicate_threshold=t)\<close>\<close>
  "Settings_of m t =
     \<lparr> include_sections = [''personal_info'', ''skills'', ''experience'', ''education'', ''projects''],
       max_skills = m, sort_experience_by = ''date'', deduplicate_threshold = t \<rparr>"

definition store_of :: "Project list \<Rightarrow> store" where
  \<comment> \<open>the store that holds the given projects at the addresses 0, 1, ...\<close>
  "store_of ps = (\<lambda>a. if a < length ps then ps ! a else Project_of [] [] [])"

section \<open>Auxiliary functions of the proofs\<close>

fun first_by :: "('a \<Rightarrow> 'k) \<Rightarrow> 'k set \<Rightarrow> 'a list \<Rightarrow> 'a list" where
  \<comment> \<open>the elements whose key is neither in \<open>S\<close> nor the key of an earlier element\<close>
  "first_by f S [] = []"
| "first_by f S (x # xs) =
     (if f x \<in> S then first_by f S xs else x # first_by f (insert (f x) S) xs)"

text \<open>
  The bookkeeping of the skill merger: the key under which a step files a mention (the
  matched key, or the mention's own normalised name), the mentions of a run with their
  keys, and the mentions filed under one key.
\<close>

definition target_key :: "int \<Rightarrow> Skill \<Rightarrow> (string \<times> Skill) list \<Rightarrow> string" where
  "target_key t skill m =
     (let n = strip (lower (skill_name skill)); mk = matched_key_of n (map fst m) t
      in if truthy mk then or_else mk [] else n)"

fun filed :: "int \<Rightarrow> Skill list \<Rightarrow> (string \<times> Skill) list \<Rightarrow> (string \<times> Skill) list" where
  "filed t [] m = []"
| "filed t (s # ss) m = (target_key t s m, s) # filed t ss (skill_step t s m)"

definition mentions_of :: "int \<Rightarrow> Skill list \<Rightarrow> string \<Rightarrow> Skill list" where
  "mentions_of t ss k = map snd (filter (\<lambda>e. fst e = k) (filed t ss []))"

definition freq_of :: "(string \<times> Skill) list \<Rightarrow> string \<Rightarrow> int" where
  "freq_of m k = (case map_of m k of None \<Rightarrow> 0 | Some d \<Rightarrow> skill_frequency d)"

definition conf_of :: "(string \<times> Skill) list \<Rightarrow> string \<Rightarrow> rat option" where
  "conf_of m k = map_option skill_confidence (map_of m k)"

fun cmax :: "rat option \<Rightarrow> rat \<Rightarrow> rat option" where
  "cmax None c = Some c"
| "cmax (Some a) c = Some (max a c)"

text \<open>
  The identity of an experience entry as C1 reads it, with the start date as it is
  written: lower-cased company, lower-cased title, start date (missing or empty: the
  empty string).
\<close>

definition exp_identity :: "Experience \<Rightarrow> string \<times> string \<times> string" where
  "exp_identity e =
     (lower (exp_company e), lower (exp_title e), or_else (exp_start_date e) [])"

text \<open>
  The first-seen scan of the projects, without the store: the normalised name of a
  project, and the projects that open a key. A project opens a key when, at its turn,
  no key seen so far matches its name; \<open>keys\<close> are the keys seen so far, in order.
\<close>

definition norm_name :: "store \<Rightarrow> ref \<Rightarrow> string" where
  "norm_name h p = strip (lower (proj_name (h p)))"

fun opened :: "int \<Rightarrow> (ref \<Rightarrow> string) \<Rightarrow> ref list \<Rightarrow> string list \<Rightarrow> (string \<times> ref) list" where
  "opened t name [] keys = []"
| "opened t name (p # ps) keys =
     (if truthy (matched_key_of (name p) keys t) then opened t name ps keys
      else (name p, p) #
           opened t name ps (if name p \<in> set keys then keys else keys @ [name p]))"

section \<open>Lists, sorting and dictionaries\<close>

lemma fold_fold_concat: "fold (\<lambda>xs st. fold f xs st) xss st = fold f (concat xss) st"
  by (induction xss arbitrary: st) simp_all

lemma keys_first_by: "f ` set (first_by f S xs) = f ` set xs - S"
  by (induction xs arbitrary: S) auto

lemma distinct_first_by: "distinct (map f (first_by f S xs))"
  by (induction xs arbitrary: S) (auto simp: keys_first_by)

lemma find_first_by:
  "find (\<lambda>x. f x = k) (first_by f S xs) = (if k \<in> S then None else find (\<lambda>x. f x = k) xs)"
  by (induction xs arbitrary: S) auto

lemma filter_distinct_key:
  "distinct (map g xs) \<Longrightarrow> y \<in> set xs \<Longrightarrow> filter (\<lambda>x. g x = g y) xs = [y]"
proof (induction xs)
  case Nil
  then show ?case by simp
next
  case (Cons x xs)
  show ?case
  proof (cases "x = y")
    case True
    have "filter (\<lambda>x. g x = g y) xs = []"
      using Cons.prems True by (auto simp: filter_empty_conv image_iff)
    with True show ?thesis by simp
  next
    case False
    then have "y \<in> set xs" using Cons.prems by simp
    moreover have "g x \<noteq> g y" using Cons.prems \<open>y \<in> set xs\<close> by auto
    ultimately show ?thesis using Cons by simp
  qed
qed

lemma set_sort_reverse: "set (sort_reverse f xs) = set xs"
  by (simp add: sort_reverse_def)

lemma length_sort_reverse: "length (sort_reverse f xs) = length xs"
  by (simp add: sort_reverse_def)

lemma distinct_map_sort_reverse:
  "distinct (map g (sort_reverse f xs)) = distinct (map g xs)"
  by (simp add: sort_reverse_def distinct_map)

lemma sorted_sort_reverse: "sorted_wrt (\<lambda>a b. f b \<le> f a) (sort_reverse f xs)"
proof -
  have "sorted (map f (sort_key f (rev xs)))" by simp
  then have "sorted_wrt (\<lambda>a b. f a \<le> f b) (sort_key f (rev xs))"
    by (simp add: sorted_map)
  then show ?thesis
    by (simp add: sort_reverse_def sorted_wrt_rev)
qed

lemma set_first_by: "set (first_by f S xs) \<subseteq> set xs"
  by (induction xs arbitrary: S) auto

lemma split_at_first:
  "x \<notin> set xs \<Longrightarrow> x \<notin> set xs' \<Longrightarrow> xs @ x # ys = xs' @ x # ys' \<Longrightarrow> xs = xs' \<and> ys = ys'"
proof (induction xs arbitrary: xs')
  case Nil
  then show ?case by (cases xs') auto
next
  case (Cons a xs)
  then show ?case by (cases xs') auto
qed

lemma keys_dict_set:
  "map fst (dict_set m k v) = (if k \<in> set (map fst m) then map fst m else map fst m @ [k])"
  by (induction m) force+

lemma keys_dict_upd: "map fst (dict_upd m k f) = map fst m"
  by (induction m) (auto simp: dict_upd_def)

lemma map_of_dict_upd:
  "map_of (dict_upd m k f) k' = (if k' = k then map_option f (map_of m k) else map_of m k')"
  by (induction m) (auto simp: dict_upd_def)

lemma map_of_dict_set:
  "map_of (dict_set m k v) k' = (if k' = k then Some v else map_of m k')"
  by (induction m) auto

lemma dict_set_new: "k \<notin> set (map fst m) \<Longrightarrow> dict_set m k v = m @ [(k, v)]"
  by (induction m) auto

lemma keyset_dict_set: "fst ` set (dict_set m k v) = insert k (fst ` set m)"
proof -
  have "set (map fst (dict_set m k v)) = insert k (set (map fst m))"
    unfolding keys_dict_set by (cases "k \<in> set (map fst m)") (simp_all add: insert_absorb)
  then show ?thesis by simp
qed

lemma keys_fold_dict_set:
  "map fst (fold (\<lambda>e m. dict_set m (fst e) (snd e)) ev m) =
   map fst m @ first_by (\<lambda>k. k) (set (map fst m)) (map fst ev)"
proof (induction ev arbitrary: m)
  case Nil
  then show ?case by simp
next
  case (Cons e ev)
  show ?case
  proof (cases "fst e \<in> set (map fst m)")
    case True
    then have "map fst (dict_set m (fst e) (snd e)) = map fst m"
      by (simp add: keys_dict_set)
    with True Cons show ?thesis by (simp add: keyset_dict_set insert_absorb)
  next
    case False
    then have "map fst (dict_set m (fst e) (snd e)) = map fst m @ [fst e]"
      by (simp add: keys_dict_set)
    with False Cons show ?thesis by (simp add: keyset_dict_set)
  qed
qed

lemma remdups_snoc: "remdups (zs @ [x]) = remdups (filter (\<lambda>z. z \<noteq> x) zs) @ [x]"
  by (induction zs) auto

lemma first_by_rev_remdups:
  "first_by (\<lambda>k. k) S xs = rev (remdups (rev (filter (\<lambda>x. x \<notin> S) xs)))"
proof (induction xs arbitrary: S)
  case Nil
  then show ?case by simp
next
  case (Cons x xs)
  show ?case
  proof (cases "x \<in> S")
    case True
    with Cons show ?thesis by simp
  next
    case False
    have "filter (\<lambda>z. z \<noteq> x) (rev (filter (\<lambda>y. y \<notin> S) xs)) =
          rev (filter (\<lambda>y. y \<notin> insert x S) xs)"
      by (simp add: rev_filter [symmetric] conj_commute)
    with False Cons show ?thesis
      by (simp add: remdups_snoc)
  qed
qed

lemma map_of_fold_dict_set:
  "map_of (fold (\<lambda>e m. dict_set m (fst e) (snd e)) ev m) k =
   (case map_of (rev ev) k of None \<Rightarrow> map_of m k | Some v \<Rightarrow> Some v)"
proof (induction ev arbitrary: m)
  case Nil
  then show ?case by simp
next
  case (Cons e ev)
  obtain k' v' where e: "e = (k', v')" by (cases e)
  show ?case
    by (simp add: Cons e map_of_dict_set map_add_def split: option.splits)
qed

lemma fold_dict_set_fresh:
  "distinct (map fst ev) \<Longrightarrow> set (map fst ev) \<inter> set (map fst m) = {} \<Longrightarrow>
   fold (\<lambda>e m. dict_set m (fst e) (snd e)) ev m = m @ ev"
proof (induction ev arbitrary: m)
  case Nil
  then show ?case by simp
next
  case (Cons e ev)
  from Cons.prems have new: "fst e \<notin> set (map fst m)" by auto
  then have step: "dict_set m (fst e) (snd e) = m @ [e]"
    by (simp add: dict_set_new)
  have "fold (\<lambda>e m. dict_set m (fst e) (snd e)) ev (m @ [e]) = (m @ [e]) @ ev"
    using Cons.prems by (intro Cons.IH) auto
  with step show ?case by simp
qed

section \<open>Fuzzy matching: the best match\<close>

lemma lcs_same: "lcs xs xs = length xs"
  by (induction xs) simp_all

lemma ratio_same: "ratio k k = 100"
  by (simp add: ratio_def lcs_same)

lemma matched_key_single:
  "matched_key_of q [k] t = (if of_int t \<le> ratio q k then Some k else None)"
  by (simp add: matched_key_of_def extractOne_def Let_def)

lemma matched_key_nil: "matched_key_of q [] t = None"
  by (simp add: matched_key_of_def)

lemma lcs_le: "lcs xs ys \<le> length xs \<and> lcs xs ys \<le> length ys"
  by (induction xs ys rule: lcs.induct) auto

lemma lcs_full:
  "length xs = length ys \<Longrightarrow> lcs xs ys = length xs \<Longrightarrow> xs = ys"
proof (induction xs ys rule: lcs.induct)
  case (1 ys)
  then show ?case by simp
next
  case (2 x xs)
  then show ?case by simp
next
  case (3 x xs y ys)
  show ?case
  proof (cases "x = y")
    case True
    with 3 show ?thesis by simp
  next
    case False
    have "lcs (x # xs) ys \<le> length ys" "lcs xs (y # ys) \<le> length xs"
      using lcs_le by blast+
    with False 3 show ?thesis by simp
  qed
qed

lemma ratio_le_100: "ratio a b \<le> 100"
proof (cases "length a + length b = 0")
  case True
  then show ?thesis by (simp add: ratio_def)
next
  case False
  have "2 * lcs a b \<le> length a + length b"
    using lcs_le [of a b] by linarith
  then have "(of_nat (2 * lcs a b) :: rat) \<le> of_nat (length a + length b)"
    by (simp only: of_nat_le_iff)
  with False show ?thesis
    by (simp add: ratio_def divide_le_eq)
qed

lemma ratio_100_eq:
  assumes "ratio a b = 100"
  shows "a = b"
proof (cases "length a + length b = 0")
  case True
  then show ?thesis by simp
next
  case False
  then have pos: "(of_nat (length a + length b) :: rat) \<noteq> 0"
    by (simp only: of_nat_eq_0_iff) simp
  from assms False
  have "100 * (of_nat (2 * lcs a b) :: rat) / of_nat (length a + length b) = 100"
    by (simp only: ratio_def if_False)
  with pos have "(of_nat (2 * lcs a b) :: rat) = of_nat (length a + length b)"
    by (simp add: divide_eq_eq)
  then have "2 * lcs a b = length a + length b"
    by (simp only: of_nat_eq_iff)
  moreover have "lcs a b \<le> length a" "lcs a b \<le> length b"
    using lcs_le by blast+
  ultimately have "length a = length b" "lcs a b = length a"
    by linarith+
  then show ?thesis by (rule lcs_full)
qed

lemma extractOne_loop_member:
  "extractOne_loop q xs sc c r = Some (k, s, i) \<Longrightarrow>
   k \<in> snd ` set xs \<or> r = Some (k, s, i)"
proof (induction xs arbitrary: c r)
  case Nil
  then show ?case by simp
next
  case (Cons x xs)
  obtain j choice where x: "x = (j, choice)" by (cases x)
  from Cons.prems Cons.IH show ?case
    by (fastforce simp: x Let_def split: if_splits)
qed

lemma matched_key_member:
  "matched_key_of n keys t = Some k \<Longrightarrow> k \<in> set keys"
proof -
  assume "matched_key_of n keys t = Some k"
  then obtain s i where
    "extractOne_loop n (zip [0 ..< length keys] keys) ratio (of_int t) None = Some (k, s, i)"
    by (auto simp: matched_key_of_def extractOne_def split: if_splits option.splits)
  then have "k \<in> snd ` set (zip [0 ..< length keys] keys)"
    using extractOne_loop_member by fastforce
  then show ?thesis
    by (auto dest: set_zip_rightD)
qed

lemma extractOne_loop_perfect:
  assumes "c \<le> 100"
    and "case r of None \<Rightarrow> True | Some (k, best, j) \<Rightarrow> best < 100"
    and "\<exists>k \<in> snd ` set xs. ratio q k = 100"
  shows "\<exists>k j. extractOne_loop q xs ratio c r = Some (k, 100, j) \<and> ratio q k = 100"
  using assms
proof (induction xs arbitrary: c r)
  case Nil
  then show ?case by simp
next
  case (Cons x xs)
  obtain i choice where x: "x = (i, choice)" by (cases x)
  show ?case
  proof (cases "ratio q choice = 100")
    case True
    with Cons.prems show ?thesis
      by (auto simp: x Let_def split: option.splits)
  next
    case False
    then have lt: "ratio q choice < 100"
      using ratio_le_100 [of q choice] by simp
    from False Cons.prems(3) have rest: "\<exists>k \<in> snd ` set xs. ratio q k = 100"
      by (auto simp: x)
    show ?thesis
    proof (cases "c \<le> ratio q choice \<and>
        (case r of None \<Rightarrow> True | Some (k, best, j) \<Rightarrow> best < ratio q choice)")
      case True
      have "\<exists>k j. extractOne_loop q xs ratio (ratio q choice) (Some (choice, ratio q choice, i)) =
                Some (k, 100, j) \<and> ratio q k = 100"
        using lt rest by (intro Cons.IH) simp_all
      with True False show ?thesis
        by (simp add: x Let_def)
    next
      case no: False
      have "\<exists>k j. extractOne_loop q xs ratio c r = Some (k, 100, j) \<and> ratio q k = 100"
        using Cons.prems(1,2) rest by (intro Cons.IH)
      with no False show ?thesis
        by (auto simp: x Let_def)
    qed
  qed
qed

lemma snd_zip_index: "snd ` set (zip [0 ..< length keys] keys) = set keys"
proof -
  have "map snd (zip [0 ..< length keys] keys) = keys"
    by (rule map_snd_zip) simp
  then have "set (map snd (zip [0 ..< length keys] keys)) = set keys"
    by simp
  then show ?thesis by (simp only: set_map)
qed

lemma matched_key_present:
  assumes "n \<in> set keys" and "t \<le> 100"
  shows "matched_key_of n keys t = Some n"
proof -
  have keys: "keys \<noteq> []" using assms(1) by auto
  have "ratio n n = 100" by (simp add: ratio_def lcs_same)
  with assms(1) have "\<exists>k \<in> snd ` set (zip [0 ..< length keys] keys). ratio n k = 100"
    by (auto simp only: snd_zip_index)
  moreover have "(of_int t :: rat) \<le> 100" using assms(2) by simp
  ultimately obtain k j where
    "extractOne_loop n (zip [0 ..< length keys] keys) ratio (of_int t) None = Some (k, 100, j)"
    and "ratio n k = 100"
    using extractOne_loop_perfect [of "of_int t" None "zip [0 ..< length keys] keys" n]
    by auto
  moreover from \<open>ratio n k = 100\<close> have "n = k" by (rule ratio_100_eq)
  ultimately show ?thesis
    using keys by (simp add: matched_key_of_def extractOne_def)
qed

lemma matched_truthy:
  assumes "truthy (matched_key_of n keys t)"
  shows "\<exists>k. matched_key_of n keys t = Some k \<and> k \<noteq> [] \<and> k \<in> set keys \<and>
             or_else (matched_key_of n keys t) [] = k"
  using assms matched_key_member [of n keys t]
  by (cases "matched_key_of n keys t") (auto simp: truthy_def or_else_def)

lemma not_truthy_fresh:
  assumes "\<not> truthy (matched_key_of n keys t)" and "n \<noteq> []" and "t \<le> 100"
  shows "n \<notin> set keys"
proof
  assume "n \<in> set keys"
  then have "matched_key_of n keys t = Some n"
    using assms(3) by (rule matched_key_present)
  with assms(1,2) show False by (simp add: truthy_def)
qed

section \<open>Experience: exact deduplication and order\<close>

lemma fold_exp_step:
  "fold exp_step xs (S, acc) = (S \<union> signature ` set xs, acc @ first_by signature S xs)"
  by (induction xs arbitrary: S acc) (auto simp: exp_step_def)

lemma collect_experience_first_by:
  "collect_experience exp_lists = first_by signature {} (concat exp_lists)"
  by (simp add: collect_experience_def fold_fold_concat fold_exp_step)

lemma signature_eqI:
  "lower (exp_company a) = lower (exp_company b) \<Longrightarrow>
   lower (exp_title a) = lower (exp_title b) \<Longrightarrow>
   or_else (exp_start_date a) [] = or_else (exp_start_date b) [] \<Longrightarrow>
   signature a = signature b"
  by (simp add: signature_def)

lemma lower_char_underscore: "lower_char c = CHR ''_'' \<longleftrightarrow> c = CHR ''_''"
proof
  assume "c = CHR ''_''"
  then show "lower_char c = CHR ''_''" by (simp add: lower_char_def)
next
  assume a: "lower_char c = CHR ''_''"
  show "c = CHR ''_''"
  proof (cases "(65 \<le> (of_char c :: nat) \<and> (of_char c :: nat) \<le> 90) \<or>
                (192 \<le> (of_char c :: nat) \<and> (of_char c :: nat) \<le> 222 \<and> (of_char c :: nat) \<noteq> 215)")
    case False
    with a show ?thesis by (simp add: lower_char_def Let_def)
  next
    case True
    then have small: "(of_char c + 32 :: nat) < 256" by linarith
    from True a have "char_of (of_char c + 32 :: nat) = CHR ''_''"
      by (simp add: lower_char_def Let_def)
    then have "(of_char (char_of (of_char c + 32 :: nat) :: char) :: nat) = of_char (CHR ''_'')"
      by (rule arg_cong)
    then have "(of_char c + 32 :: nat) mod 256 = 95"
      by simp
    with small have "(of_char c + 32 :: nat) = 95"
      by (simp only: mod_less)
    with True show ?thesis by linarith
  qed
qed

lemma underscore_lower: "CHR ''_'' \<in> set (lower s) \<longleftrightarrow> CHR ''_'' \<in> set s"
proof -
  have "CHR ''_'' \<in> set (lower s) \<longleftrightarrow> (\<exists>c \<in> set s. lower_char c = CHR ''_'')"
    by (simp add: lower_def image_iff eq_commute)
  also have "\<dots> \<longleftrightarrow> (\<exists>c \<in> set s. c = CHR ''_'')"
    by (simp only: lower_char_underscore)
  finally show ?thesis by simp
qed

lemma signature_inj:
  assumes "CHR ''_'' \<notin> set (exp_company a)" "CHR ''_'' \<notin> set (exp_title a)"
    and "CHR ''_'' \<notin> set (exp_company b)" "CHR ''_'' \<notin> set (exp_title b)"
    and "signature a = signature b"
  shows "exp_identity a = exp_identity b"
proof -
  have ca: "CHR ''_'' \<notin> set (lower (exp_company a))" and cb: "CHR ''_'' \<notin> set (lower (exp_company b))"
    and ta: "CHR ''_'' \<notin> set (lower (exp_title a))" and tb: "CHR ''_'' \<notin> set (lower (exp_title b))"
    using assms(1-4) by (simp_all only: underscore_lower not_False_eq_True)
  from assms(5) have eq: "lower (exp_company a) @ CHR ''_'' # (lower (exp_title a) @ CHR ''_'' # or_else (exp_start_date a) []) =
      lower (exp_company b) @ CHR ''_'' # (lower (exp_title b) @ CHR ''_'' # or_else (exp_start_date b) [])"
    by (simp add: signature_def)
  from split_at_first [OF ca cb eq]
  have 1: "lower (exp_company a) = lower (exp_company b)"
    and rest: "lower (exp_title a) @ CHR ''_'' # or_else (exp_start_date a) [] =
               lower (exp_title b) @ CHR ''_'' # or_else (exp_start_date b) []"
    by (rule conjunct1, rule conjunct2)
  from split_at_first [OF ta tb rest]
  have 2: "lower (exp_title a) = lower (exp_title b)"
    and 3: "or_else (exp_start_date a) [] = or_else (exp_start_date b) []"
    by (rule conjunct1, rule conjunct2)
  from 1 2 3 show ?thesis by (simp only: exp_identity_def)
qed

lemma identity_signature:
  "exp_identity a = exp_identity b \<Longrightarrow> signature a = signature b"
  by (simp add: exp_identity_def signature_def)

lemma set_merge_experience: "set (merge_experience exp_lists) \<subseteq> set (concat exp_lists)"
  unfolding merge_experience_def set_sort_reverse collect_experience_first_by
  by (rule set_first_by)

text \<open>
  In terms of the signature string of \<open>merger.py\<close>: the merged list holds exactly one
  entry with the signature of an input entry, and it is the first input entry with that
  signature.
\<close>

lemma merge_experience_first_signature:
  assumes "e \<in> set (concat exp_lists)"
  shows "\<exists>y. find (\<lambda>x. signature x = signature e) (concat exp_lists) = Some y \<and>
             filter (\<lambda>x. signature x = signature e) (merge_experience exp_lists) = [y]"
proof -
  let ?P = "\<lambda>x. signature x = signature e"
  from assms obtain y where y: "find ?P (concat exp_lists) = Some y"
    by (cases "find ?P (concat exp_lists)") (auto simp: find_None_iff)
  then have sig: "signature y = signature e"
    by (auto simp: find_Some_iff)
  have "find ?P (collect_experience exp_lists) = Some y"
    using y by (simp add: collect_experience_first_by find_first_by)
  then have "y \<in> set (collect_experience exp_lists)"
    by (auto simp: find_Some_iff)
  then have "y \<in> set (merge_experience exp_lists)"
    by (simp add: merge_experience_def set_sort_reverse)
  moreover have "distinct (map signature (merge_experience exp_lists))"
    by (simp add: merge_experience_def distinct_map_sort_reverse
        collect_experience_first_by distinct_first_by)
  ultimately have "filter (\<lambda>x. signature x = signature y) (merge_experience exp_lists) = [y]"
    by (rule filter_distinct_key[rotated])
  with y sig show ?thesis by simp
qed

text \<open>
  C1, as the code has it. The identity of an entry is its lower-cased company, its
  lower-cased title and its start date as it is written (missing or empty: the empty
  string). Take experience lists whose companies and titles hold no underscore. For
  every entry \<open>e\<close> of the input, the merged list holds exactly one entry with the
  identity of \<open>e\<close>, and it is the first entry of the input (resumes in order, entries
  in order) with that identity, unchanged. So entries with one identity collapse into
  the first of them, and entries with different identities are all kept.
\<close>

theorem merge_experience_dedup:
  assumes "\<forall>x \<in> set (concat exp_lists).
             CHR ''_'' \<notin> set (exp_company x) \<and> CHR ''_'' \<notin> set (exp_title x)"
    and "e \<in> set (concat exp_lists)"
  shows "\<exists>y. find (\<lambda>x. exp_identity x = exp_identity e) (concat exp_lists) = Some y \<and>
             filter (\<lambda>x. exp_identity x = exp_identity e) (merge_experience exp_lists) = [y]"
proof -
  have same: "(signature x = signature e) = (exp_identity x = exp_identity e)"
    if "x \<in> set (concat exp_lists)" for x
  proof
    assume "signature x = signature e"
    with assms that show "exp_identity x = exp_identity e"
      by (intro signature_inj) blast+
  next
    assume "exp_identity x = exp_identity e"
    then show "signature x = signature e" by (rule identity_signature)
  qed
  have f: "find (\<lambda>x. signature x = signature e) (concat exp_lists) =
           find (\<lambda>x. exp_identity x = exp_identity e) (concat exp_lists)"
    by (rule find_cong) (simp_all add: same)
  have g: "filter (\<lambda>x. signature x = signature e) (merge_experience exp_lists) =
           filter (\<lambda>x. exp_identity x = exp_identity e) (merge_experience exp_lists)"
  proof (rule filter_cong)
    show "merge_experience exp_lists = merge_experience exp_lists" ..
  next
    fix x assume "x \<in> set (merge_experience exp_lists)"
    with set_merge_experience have "x \<in> set (concat exp_lists)" by blast
    then show "(signature x = signature e) = (exp_identity x = exp_identity e)" by (rule same)
  qed
  from merge_experience_first_signature [OF assms(2)] show ?thesis
    by (simp only: f g)
qed

text \<open>
  The theorem at two resumes that hold the same position in different case: the entry
  of the second resume is in the input, and the merged list keeps the entry of the first.
\<close>

theorem merge_experience_dedup_witness:
  "CHR ''_'' \<notin> set (exp_company (Experience_of ''Acme'' ''Engineer'' (Some ''2020'') False)) \<and>
   CHR ''_'' \<notin> set (exp_title (Experience_of ''Acme'' ''Engineer'' (Some ''2020'') False)) \<and>
   CHR ''_'' \<notin> set (exp_company (Experience_of ''ACME'' ''engineer'' (Some ''2020'') True)) \<and>
   CHR ''_'' \<notin> set (exp_title (Experience_of ''ACME'' ''engineer'' (Some ''2020'') True)) \<and>
   Experience_of ''ACME'' ''engineer'' (Some ''2020'') True
     \<in> set (concat [[Experience_of ''Acme'' ''Engineer'' (Some ''2020'') False],
                     [Experience_of ''ACME'' ''engineer'' (Some ''2020'') True]]) \<and>
   filter (\<lambda>x. exp_identity x = exp_identity (Experience_of ''ACME'' ''engineer'' (Some ''2020'') True))
     (merge_experience [[Experience_of ''Acme'' ''Engineer'' (Some ''2020'') False],
                        [Experience_of ''ACME'' ''engineer'' (Some ''2020'') True]])
   = [Experience_of ''Acme'' ''Engineer'' (Some ''2020'') False]"
proof -
  let ?a = "Experience_of ''Acme'' ''Engineer'' (Some ''2020'') False"
  let ?b = "Experience_of ''ACME'' ''engineer'' (Some ''2020'') True"
  have clean: "\<forall>x \<in> set (concat [[?a], [?b]]).
      CHR ''_'' \<notin> set (exp_company x) \<and> CHR ''_'' \<notin> set (exp_title x)"
    by (simp add: Experience_of_def)
  have h: "?b \<in> set (concat [[?a], [?b]])" by simp
  have first: "find (\<lambda>x. exp_identity x = exp_identity ?b) (concat [[?a], [?b]]) = Some ?a"
    by code_simp
  from merge_experience_dedup [OF clean h]
  obtain y where "find (\<lambda>x. exp_identity x = exp_identity ?b) (concat [[?a], [?b]]) = Some y"
    and f: "filter (\<lambda>x. exp_identity x = exp_identity ?b) (merge_experience [[?a], [?b]]) = [y]"
    by blast
  with first have "y = ?a" by (simp only: option.inject)
  with f have r: "filter (\<lambda>x. exp_identity x = exp_identity ?b) (merge_experience [[?a], [?b]]) = [?a]"
    by (simp only:)
  have u: "CHR ''_'' \<notin> set (exp_company ?a)" "CHR ''_'' \<notin> set (exp_title ?a)"
    "CHR ''_'' \<notin> set (exp_company ?b)" "CHR ''_'' \<notin> set (exp_title ?b)"
    by (simp_all add: Experience_of_def)
  show ?thesis
    by (intro conjI) (rule u h r)+
qed

text \<open>
  C1 as it is stated fails twice. Two entries that differ only in the case of the start
  date have equal lower-cased tuples, and both are kept: the start date enters the key
  as it is written. Two entries with different companies and titles are merged when the
  underscore that joins the key falls elsewhere: a distinct position is lost, against
  "removing duplicates" (\<open>merger.py\<close>, line 107).
\<close>

theorem merge_experience_tuple_counterexample:
  "lower (exp_company (Experience_of ''Acme'' ''Engineer'' (Some ''Jan 2020'') False)) =
     lower (exp_company (Experience_of ''Acme'' ''Engineer'' (Some ''JAN 2020'') False)) \<and>
   lower (exp_title (Experience_of ''Acme'' ''Engineer'' (Some ''Jan 2020'') False)) =
     lower (exp_title (Experience_of ''Acme'' ''Engineer'' (Some ''JAN 2020'') False)) \<and>
   map_option lower (exp_start_date (Experience_of ''Acme'' ''Engineer'' (Some ''Jan 2020'') False)) =
     map_option lower (exp_start_date (Experience_of ''Acme'' ''Engineer'' (Some ''JAN 2020'') False)) \<and>
   merge_experience [[Experience_of ''Acme'' ''Engineer'' (Some ''Jan 2020'') False],
                     [Experience_of ''Acme'' ''Engineer'' (Some ''JAN 2020'') False]] =
     [Experience_of ''Acme'' ''Engineer'' (Some ''Jan 2020'') False,
      Experience_of ''Acme'' ''Engineer'' (Some ''JAN 2020'') False] \<and>
   lower (exp_company (Experience_of ''a_b'' ''c'' None False)) \<noteq>
     lower (exp_company (Experience_of ''a'' ''b_c'' None False)) \<and>
   merge_experience [[Experience_of ''a_b'' ''c'' None False],
                     [Experience_of ''a'' ''b_c'' None False]] =
     [Experience_of ''a_b'' ''c'' None False]"
  by code_simp

lemma exp_sort_key_le:
  "exp_sort_key b \<le> exp_sort_key a \<longleftrightarrow>
     (exp_current a \<and> \<not> exp_current b) \<or>
     (exp_current a = exp_current b \<and>
      or_else (exp_start_date b) ''0000'' \<le> or_else (exp_start_date a) ''0000'')"
  by (auto simp: exp_sort_key_def less_eq_prod_def)

text \<open>
  C6, as the code has it. In the merged experience list every current entry precedes
  every entry that is not current, and within each of the two groups the entries
  descend by start date, compared as a string, where a missing or empty start date
  counts as the string 0000. Such an entry therefore comes after the entries of its
  group whose start date is above 0000 and before those whose start date is below it.
\<close>

theorem merge_experience_order:
  "sorted_wrt
     (\<lambda>a b. (exp_current a \<and> \<not> exp_current b) \<or>
            (exp_current a = exp_current b \<and>
             or_else (exp_start_date b) ''0000'' \<le> or_else (exp_start_date a) ''0000''))
     (merge_experience exp_lists)"
proof -
  have "sorted_wrt (\<lambda>a b. exp_sort_key b \<le> exp_sort_key a) (merge_experience exp_lists)"
    unfolding merge_experience_def by (rule sorted_sort_reverse)
  then show ?thesis
    by (simp add: exp_sort_key_le)
qed

text \<open>
  The order at four entries of one resume: the current entry first, then the entries
  that are not current by descending start date, the one without a start date among them.
\<close>

theorem merge_experience_order_witness:
  "merge_experience
     [[Experience_of ''A'' ''Dev'' None False, Experience_of ''B'' ''Dev'' (Some ''2018'') False,
       Experience_of ''C'' ''Dev'' (Some ''2015'') True, Experience_of ''D'' ''Dev'' (Some ''2021'') False]] =
     [Experience_of ''C'' ''Dev'' (Some ''2015'') True, Experience_of ''D'' ''Dev'' (Some ''2021'') False,
      Experience_of ''B'' ''Dev'' (Some ''2018'') False, Experience_of ''A'' ''Dev'' None False] \<and>
   sorted_wrt
     (\<lambda>a b. (exp_current a \<and> \<not> exp_current b) \<or>
            (exp_current a = exp_current b \<and>
             or_else (exp_start_date b) ''0000'' \<le> or_else (exp_start_date a) ''0000''))
     (merge_experience
        [[Experience_of ''A'' ''Dev'' None False, Experience_of ''B'' ''Dev'' (Some ''2018'') False,
          Experience_of ''C'' ''Dev'' (Some ''2015'') True, Experience_of ''D'' ''Dev'' (Some ''2021'') False]])"
proof (rule conjI)
  show "merge_experience
     [[Experience_of ''A'' ''Dev'' None False, Experience_of ''B'' ''Dev'' (Some ''2018'') False,
       Experience_of ''C'' ''Dev'' (Some ''2015'') True, Experience_of ''D'' ''Dev'' (Some ''2021'') False]] =
     [Experience_of ''C'' ''Dev'' (Some ''2015'') True, Experience_of ''D'' ''Dev'' (Some ''2021'') False,
      Experience_of ''B'' ''Dev'' (Some ''2018'') False, Experience_of ''A'' ''Dev'' None False]"
    by code_simp
next
  show "sorted_wrt
     (\<lambda>a b. (exp_current a \<and> \<not> exp_current b) \<or>
            (exp_current a = exp_current b \<and>
             or_else (exp_start_date b) ''0000'' \<le> or_else (exp_start_date a) ''0000''))
     (merge_experience
        [[Experience_of ''A'' ''Dev'' None False, Experience_of ''B'' ''Dev'' (Some ''2018'') False,
          Experience_of ''C'' ''Dev'' (Some ''2015'') True, Experience_of ''D'' ''Dev'' (Some ''2021'') False]])"
    by (rule merge_experience_order)
qed

text \<open>
  C6 as it is stated fails where a start date is below the string 0000: the entry
  without a start date is then not the last of the entries that are not current.
\<close>

theorem merge_experience_missing_date_counterexample:
  "merge_experience
     [[Experience_of ''A'' ''Dev'' (Some ''(2019)'') False, Experience_of ''B'' ''Dev'' None False]] =
     [Experience_of ''B'' ''Dev'' None False, Experience_of ''A'' ''Dev'' (Some ''(2019)'') False]"
  by code_simp

section \<open>Skills: the threshold, and a key that is the empty string\<close>

text \<open>
  Two mentions, the first with a normalised name that is not empty. A score equal to the
  threshold folds the second into the first: one skill, frequency 2, the larger
  confidence. A score one point below the threshold (for a threshold within 0 to 100)
  leaves two skills.
\<close>

lemma skill_step_first:
  "skill_step t a [] =
     [(strip (lower (skill_name a)),
       \<lparr> skill_name = skill_name a, skill_category = skill_category a,
         skill_frequency = 1, skill_confidence = skill_confidence a \<rparr>)]"
  by (simp add: skill_step_def matched_key_of_def truthy_def Let_def)

lemma collect_skills_pair:
  "collect_skills [[a], [b]] t = skill_step t b (skill_step t a [])"
  by (simp add: collect_skills_def)

lemma merge_skills_at_threshold:
  assumes "strip (lower (skill_name a)) \<noteq> []"
    and "ratio (strip (lower (skill_name b))) (strip (lower (skill_name a))) = of_int t"
  shows "merge_skills [[a], [b]] t =
           [\<lparr> skill_name = skill_name a, skill_category = skill_category a,
              skill_frequency = 2,
              skill_confidence = max (skill_confidence a) (skill_confidence b) \<rparr>]"
proof -
  have "matched_key_of (strip (lower (skill_name b))) [strip (lower (skill_name a))] t =
        Some (strip (lower (skill_name a)))"
    using assms(2) by (simp add: matched_key_single)
  then show ?thesis
    using assms(1)
    by (simp add: merge_skills_def collect_skills_pair skill_step_def matched_key_nil
        truthy_def or_else_def dict_upd_def sort_reverse_def Let_def)
qed

lemma merge_skills_below_threshold:
  assumes "ratio (strip (lower (skill_name b))) (strip (lower (skill_name a))) = of_int t - 1"
    and "t \<le> 100"
  shows "length (merge_skills [[a], [b]] t) = 2"
proof -
  let ?ka = "strip (lower (skill_name a))" and ?kb = "strip (lower (skill_name b))"
  have none: "matched_key_of ?kb [?ka] t = None"
    using assms(1) by (simp add: matched_key_single)
  have "?kb \<noteq> ?ka"
  proof
    assume "?kb = ?ka"
    then have "ratio ?kb ?ka = 100" by (simp add: ratio_same)
    with assms show False by simp
  qed
  with none show ?thesis
    by (simp add: merge_skills_def collect_skills_pair skill_step_def matched_key_nil
        truthy_def length_sort_reverse Let_def)
qed


text \<open>
  For mentions whose normalised names are not empty, and a threshold of at most 100,
  the frequency of a merged skill is the number of mentions filed under its key, and
  its confidence is the largest confidence among them.
\<close>

lemma map_of_key_Some: "k \<in> set (map fst m) \<Longrightarrow> \<exists>d. map_of m k = Some d"
  by (induction m) auto

lemma map_of_key_None: "k \<notin> set (map fst m) \<Longrightarrow> map_of m k = None"
  by (induction m) auto

lemma skill_step_fold:
  assumes "truthy (matched_key_of (strip (lower (skill_name s))) (map fst m) t)"
  shows "skill_step t s m =
       dict_upd m (target_key t s m)
         (\<lambda>d. d\<lparr> skill_frequency := skill_frequency d + 1,
                  skill_confidence := max (skill_confidence d) (skill_confidence s) \<rparr>)"
    and "target_key t s m \<in> set (map fst m)"
proof -
  have tk: "target_key t s m =
      or_else (matched_key_of (strip (lower (skill_name s))) (map fst m) t) []"
    using assms by (simp only: target_key_def Let_def if_True)
  show "skill_step t s m =
       dict_upd m (target_key t s m)
         (\<lambda>d. d\<lparr> skill_frequency := skill_frequency d + 1,
                  skill_confidence := max (skill_confidence d) (skill_confidence s) \<rparr>)"
    using assms by (simp only: tk skill_step_def Let_def if_True)
  from matched_truthy [OF assms] tk show "target_key t s m \<in> set (map fst m)"
    by auto
qed

lemma skill_step_insert:
  assumes "\<not> truthy (matched_key_of (strip (lower (skill_name s))) (map fst m) t)"
  shows "skill_step t s m =
       dict_set m (target_key t s m)
         \<lparr> skill_name = skill_name s, skill_category = skill_category s,
           skill_frequency = 1, skill_confidence = skill_confidence s \<rparr>"
    and "strip (lower (skill_name s)) \<noteq> [] \<Longrightarrow> t \<le> 100 \<Longrightarrow> target_key t s m \<notin> set (map fst m)"
proof -
  have tk: "target_key t s m = strip (lower (skill_name s))"
    using assms by (simp only: target_key_def Let_def if_False)
  show "skill_step t s m =
       dict_set m (target_key t s m)
         \<lparr> skill_name = skill_name s, skill_category = skill_category s,
           skill_frequency = 1, skill_confidence = skill_confidence s \<rparr>"
    using assms by (simp only: tk skill_step_def Let_def if_False)
  show "strip (lower (skill_name s)) \<noteq> [] \<Longrightarrow> t \<le> 100 \<Longrightarrow> target_key t s m \<notin> set (map fst m)"
    using assms by (simp only: tk) (rule not_truthy_fresh)
qed

lemma skill_step_freq:
  assumes "strip (lower (skill_name s)) \<noteq> []" and "t \<le> 100"
  shows "freq_of (skill_step t s m) k =
         freq_of m k + (if target_key t s m = k then 1 else 0)"
proof (cases "truthy (matched_key_of (strip (lower (skill_name s))) (map fst m) t)")
  case True
  from map_of_key_Some [OF skill_step_fold(2) [OF True]]
  obtain d where "map_of m (target_key t s m) = Some d" ..
  then show ?thesis
    by (auto simp: skill_step_fold(1) [OF True] freq_of_def map_of_dict_upd)
next
  case False
  have "map_of m (target_key t s m) = None"
    using skill_step_insert(2) [OF False assms] by (rule map_of_key_None)
  then show ?thesis
    by (auto simp: skill_step_insert(1) [OF False] freq_of_def map_of_dict_set)
qed

lemma skill_step_conf:
  assumes "strip (lower (skill_name s)) \<noteq> []" and "t \<le> 100"
  shows "conf_of (skill_step t s m) k =
         (if target_key t s m = k then cmax (conf_of m k) (skill_confidence s) else conf_of m k)"
proof (cases "truthy (matched_key_of (strip (lower (skill_name s))) (map fst m) t)")
  case True
  from map_of_key_Some [OF skill_step_fold(2) [OF True]]
  obtain d where "map_of m (target_key t s m) = Some d" ..
  then show ?thesis
    by (auto simp: skill_step_fold(1) [OF True] conf_of_def map_of_dict_upd)
next
  case False
  have "map_of m (target_key t s m) = None"
    using skill_step_insert(2) [OF False assms] by (rule map_of_key_None)
  then show ?thesis
    by (auto simp: skill_step_insert(1) [OF False] conf_of_def map_of_dict_set)
qed

lemma fold_skill_step_freq:
  assumes "\<forall>s \<in> set ss. strip (lower (skill_name s)) \<noteq> []" and "t \<le> 100"
  shows "freq_of (fold (skill_step t) ss m) k =
         freq_of m k + int (length (filter (\<lambda>e. fst e = k) (filed t ss m)))"
  using assms(1)
proof (induction ss arbitrary: m)
  case Nil
  then show ?case by simp
next
  case (Cons s ss)
  then have "strip (lower (skill_name s)) \<noteq> []" by simp
  from skill_step_freq [OF this assms(2)] Cons show ?case by simp
qed

lemma fold_skill_step_conf:
  assumes "\<forall>s \<in> set ss. strip (lower (skill_name s)) \<noteq> []" and "t \<le> 100"
  shows "conf_of (fold (skill_step t) ss m) k =
         foldl cmax (conf_of m k)
           (map (\<lambda>e. skill_confidence (snd e)) (filter (\<lambda>e. fst e = k) (filed t ss m)))"
  using assms(1)
proof (induction ss arbitrary: m)
  case Nil
  then show ?case by simp
next
  case (Cons s ss)
  then have "strip (lower (skill_name s)) \<noteq> []" by simp
  from skill_step_conf [OF this assms(2)] Cons show ?case by simp
qed

lemma foldl_cmax_Some: "foldl cmax (Some a) cs = Some (Max (insert a (set cs)))"
proof (induction cs arbitrary: a)
  case Nil
  then show ?case by simp
next
  case (Cons c cs)
  have "Max (insert (max a c) (set cs)) = Max (insert a (insert c (set cs)))"
  proof (cases "set cs = {}")
    case True
    then show ?thesis by (simp add: max.commute)
  next
    case False
    then show ?thesis
      by (simp add: max.assoc max.left_commute max.commute)
  qed
  with Cons show ?case by simp
qed

lemma foldl_cmax_None:
  "foldl cmax None cs = (if cs = [] then None else Some (Max (set cs)))"
  by (cases cs) (simp_all add: foldl_cmax_Some)

lemma skill_step_distinct:
  "distinct (map fst m) \<Longrightarrow> distinct (map fst (skill_step t s m))"
  by (simp add: skill_step_def keys_dict_set keys_dict_upd Let_def)

lemma fold_skill_step_distinct:
  "distinct (map fst m) \<Longrightarrow> distinct (map fst (fold (skill_step t) ss m))"
  by (induction ss arbitrary: m) (simp_all add: skill_step_distinct)

lemma collect_skills_flat:
  "collect_skills skill_lists t = fold (skill_step t) (concat skill_lists) []"
  by (simp add: collect_skills_def fold_fold_concat)

lemma merge_skills_frequency_confidence:
  assumes "\<forall>s \<in> set (concat skill_lists). strip (lower (skill_name s)) \<noteq> []"
    and "t \<le> 100"
    and "d \<in> set (merge_skills skill_lists t)"
  shows "\<exists>k. mentions_of t (concat skill_lists) k \<noteq> [] \<and>
             skill_frequency d = int (length (mentions_of t (concat skill_lists) k)) \<and>
             skill_confidence d =
               Max (skill_confidence ` set (mentions_of t (concat skill_lists) k))"
proof -
  let ?ss = "concat skill_lists"
  let ?m = "fold (skill_step t) ?ss []"
  from assms(3) have "d \<in> snd ` set ?m"
    by (simp add: merge_skills_def sort_reverse_def collect_skills_flat)
  then obtain k where kd: "(k, d) \<in> set ?m" by auto
  have "distinct (map fst ?m)"
    by (rule fold_skill_step_distinct) simp
  with kd have look: "map_of ?m k = Some d" by simp
  have f: "freq_of ?m k = int (length (filter (\<lambda>e. fst e = k) (filed t ?ss [])))"
    using fold_skill_step_freq [OF assms(1,2), of "[]" k] by (simp add: freq_of_def)
  have c: "conf_of ?m k =
      foldl cmax None (map (\<lambda>e. skill_confidence (snd e)) (filter (\<lambda>e. fst e = k) (filed t ?ss [])))"
    using fold_skill_step_conf [OF assms(1,2), of "[]" k] by (simp add: conf_of_def)
  from look c have ne: "filter (\<lambda>e. fst e = k) (filed t ?ss []) \<noteq> []"
    by (auto simp: conf_of_def)
  have 1: "mentions_of t ?ss k \<noteq> []"
    using ne by (simp add: mentions_of_def)
  have 2: "skill_frequency d = int (length (mentions_of t ?ss k))"
    using look f by (simp add: freq_of_def mentions_of_def)
  have "Some (skill_confidence d) =
      Some (Max (set (map (\<lambda>e. skill_confidence (snd e)) (filter (\<lambda>e. fst e = k) (filed t ?ss [])))))"
    using look c ne by (simp add: conf_of_def foldl_cmax_None)
  then have 3: "skill_confidence d = Max (skill_confidence ` set (mentions_of t ?ss k))"
    by (simp add: mentions_of_def image_image)
  from 1 2 3 show ?thesis by (intro exI conjI)
qed

text \<open>
  C3 fails on the code. Two mentions of a skill whose name is empty: the second matches
  the key of the first with a perfect score, but \<open>if matched_key:\<close> reads the empty key
  as "no match" and the \<open>else\<close> branch overwrites the entry. The merged skill has
  frequency 1, not 2, and the confidence of the second mention, not the maximum.
\<close>

theorem merge_skills_empty_name:
  "matched_key_of (strip (lower [])) [strip (lower [])] 85 = Some [] \<and>
   merge_skills [[Skill_of [] (9 / 10)], [Skill_of [] (1 / 2)]] 85 = [Skill_of [] (1 / 2)] \<and>
   skill_frequency (Skill_of [] (1 / 2)) = 1"
  by code_simp

text \<open>
  C4 fails on the code, by the same test of the key. At the threshold 100 a blank name
  and an empty name have the normalised name \<open>''\<close> and the score 100, equal to the
  threshold, and yet the second is not folded into the entry of the first: it replaces
  it, with frequency 1.
\<close>

theorem merge_skills_threshold_empty_key:
  "ratio (strip (lower [])) (strip (lower '' '')) = of_int 100 \<and>
   merge_skills [[Skill_of '' '' (9 / 10)], [Skill_of [] (1 / 2)]] 100 = [Skill_of [] (1 / 2)]"
  by code_simp

section \<open>Projects: first-seen order and the objects of the input\<close>

lemma proj_step_keys:
  "\<exists>zs. map fst (fst (proj_step t p st)) = map fst (fst st) @ zs"
  by (cases st) (auto simp: proj_step_def Let_def keys_dict_set split: option.splits)

lemma proj_step_distinct:
  "distinct (map fst (fst st)) \<Longrightarrow> distinct (map fst (fst (proj_step t p st)))"
  by (cases st) (auto simp: proj_step_def Let_def keys_dict_set split: option.splits)

lemma proj_step_fold_keeps_map:
  "truthy (matched_key_of (strip (lower (proj_name (h p)))) (map fst m) t) \<Longrightarrow>
   fst (proj_step t p (m, h)) = m"
  by (auto simp: proj_step_def Let_def split: option.splits)

lemma fold_proj_step_keys:
  "\<exists>zs. map fst (fst (fold (proj_step t) ps st)) = map fst (fst st) @ zs"
proof (induction ps arbitrary: st)
  case Nil
  then show ?case by simp
next
  case (Cons p ps)
  from proj_step_keys obtain zs1
    where 1: "map fst (fst (proj_step t p st)) = map fst (fst st) @ zs1" by blast
  from Cons.IH obtain zs2
    where 2: "map fst (fst (fold (proj_step t) ps (proj_step t p st))) =
              map fst (fst (proj_step t p st)) @ zs2" by blast
  from 1 2 show ?case by simp
qed

lemma fold_proj_step_distinct:
  "distinct (map fst (fst st)) \<Longrightarrow> distinct (map fst (fst (fold (proj_step t) ps st)))"
  by (induction ps arbitrary: st) (simp_all add: proj_step_distinct)

lemma collect_projects_flat:
  "collect_projects proj_lists t h = fold (proj_step t) (concat proj_lists) ([], h)"
  by (simp add: collect_projects_def fold_fold_concat)

lemma proj_step_name:
  "proj_name (snd (proj_step t p (m, h)) q) = proj_name (h q)"
  by (simp add: proj_step_def Let_def split: option.splits)

lemma proj_step_map:
  "fst (proj_step t p (m, h)) =
     (if truthy (matched_key_of (norm_name h p) (map fst m) t) then m
      else dict_set m (norm_name h p) p)"
  by (simp add: proj_step_def norm_name_def Let_def split: option.splits)

lemma norm_name_cong:
  "\<forall>q. proj_name (h' q) = proj_name (h q) \<Longrightarrow> norm_name h' p = norm_name h p"
  by (simp add: norm_name_def)

lemma fold_proj_step_opened:
  assumes "\<forall>q. proj_name (h' q) = proj_name (h q)"
  shows "fst (fold (proj_step t) ps (m, h')) =
         fold (\<lambda>e m. dict_set m (fst e) (snd e)) (opened t (norm_name h) ps (map fst m)) m"
  using assms
proof (induction ps arbitrary: m h')
  case Nil
  then show ?case by simp
next
  case (Cons p ps)
  obtain m1 h1 where st: "proj_step t p (m, h') = (m1, h1)" by (cases "proj_step t p (m, h')")
  have names: "\<forall>q. proj_name (h1 q) = proj_name (h q)"
    using proj_step_name [of t p m h'] Cons.prems by (simp add: st)
  have nn: "norm_name h' p = norm_name h p"
    using Cons.prems by (rule norm_name_cong)
  have m1: "m1 = (if truthy (matched_key_of (norm_name h p) (map fst m) t) then m
                  else dict_set m (norm_name h p) p)"
    using proj_step_map [of t p m h'] by (simp add: st nn)
  have "fst (fold (proj_step t) (p # ps) (m, h')) = fst (fold (proj_step t) ps (m1, h1))"
    by (simp add: st)
  also have "\<dots> = fold (\<lambda>e m. dict_set m (fst e) (snd e)) (opened t (norm_name h) ps (map fst m1)) m1"
    using names by (rule Cons.IH)
  also have "\<dots> = fold (\<lambda>e m. dict_set m (fst e) (snd e))
                      (opened t (norm_name h) (p # ps) (map fst m)) m"
    by (simp add: m1 keys_dict_set)
  finally show ?case .
qed

lemma opened_refs:
  "(k, p) \<in> set (opened t name ps keys) \<Longrightarrow> p \<in> set ps \<and> k = name p"
  by (induction ps arbitrary: keys) (auto split: if_splits)

lemma opened_fresh:
  assumes "t \<le> 100" and "\<forall>p \<in> set ps. name p \<noteq> []"
  shows "distinct (map fst (opened t name ps keys)) \<and>
         set (map fst (opened t name ps keys)) \<inter> set keys = {}"
  using assms(2)
proof (induction ps arbitrary: keys)
  case Nil
  then show ?case by simp
next
  case (Cons p ps)
  then have rest: "\<forall>p \<in> set ps. name p \<noteq> []" and np: "name p \<noteq> []" by simp_all
  show ?case
  proof (cases "truthy (matched_key_of (name p) keys t)")
    case True
    with Cons.IH [OF rest, of keys] show ?thesis by simp
  next
    case False
    then have new: "name p \<notin> set keys"
      using np assms(1) by (rule not_truthy_fresh)
    from Cons.IH [OF rest, of "keys @ [name p]"]
    have d: "distinct (map fst (opened t name ps (keys @ [name p])))"
      and i: "set (map fst (opened t name ps (keys @ [name p]))) \<inter> set (keys @ [name p]) = {}"
      by blast+
    from i have "name p \<notin> set (map fst (opened t name ps (keys @ [name p])))"
      and "set (map fst (opened t name ps (keys @ [name p]))) \<inter> set keys = {}"
      by auto
    with False new d show ?thesis by simp
  qed
qed

lemma collect_projects_opened:
  "fst (collect_projects proj_lists t h) =
   fold (\<lambda>e m. dict_set m (fst e) (snd e)) (opened t (norm_name h) (concat proj_lists) []) []"
  using fold_proj_step_opened [of h h t "concat proj_lists" "[]"]
  by (simp add: collect_projects_flat)

lemma collect_projects_keys:
  "map fst (fst (collect_projects proj_lists t h)) =
   rev (remdups (rev (map fst (opened t (norm_name h) (concat proj_lists) []))))"
  by (simp add: collect_projects_opened keys_fold_dict_set first_by_rev_remdups)

lemma collect_projects_lookup:
  "map_of (fst (collect_projects proj_lists t h)) k =
   map_of (rev (opened t (norm_name h) (concat proj_lists) [])) k"
  by (simp add: collect_projects_opened map_of_fold_dict_set split: option.splits)

lemma collect_projects_distinct:
  "distinct (map fst (fst (collect_projects proj_lists t h)))"
  by (simp add: collect_projects_flat fold_proj_step_distinct)

lemma collect_projects_entries:
  assumes "(k, p) \<in> set (fst (collect_projects proj_lists t h))"
  shows "p \<in> set (concat proj_lists) \<and> k = norm_name h p"
proof -
  from assms collect_projects_distinct
  have "map_of (fst (collect_projects proj_lists t h)) k = Some p"
    by (rule map_of_is_SomeI [rotated])
  then have "map_of (rev (opened t (norm_name h) (concat proj_lists) [])) k = Some p"
    by (simp only: collect_projects_lookup)
  then have "(k, p) \<in> set (rev (opened t (norm_name h) (concat proj_lists) []))"
    by (rule map_of_SomeD)
  then have "(k, p) \<in> set (opened t (norm_name h) (concat proj_lists) [])"
    by simp
  then show ?thesis by (rule opened_refs)
qed

lemma collect_projects_plain:
  assumes "t \<le> 100" and "\<forall>p \<in> set (concat proj_lists). norm_name h p \<noteq> []"
  shows "fst (collect_projects proj_lists t h) = opened t (norm_name h) (concat proj_lists) []"
proof -
  from opened_fresh [OF assms, of "[]"]
  have "distinct (map fst (opened t (norm_name h) (concat proj_lists) []))" by blast
  then have "fold (\<lambda>e m. dict_set m (fst e) (snd e)) (opened t (norm_name h) (concat proj_lists) []) [] =
             [] @ opened t (norm_name h) (concat proj_lists) []"
    by (rule fold_dict_set_fresh) simp
  then show ?thesis by (simp add: collect_projects_opened)
qed

text \<open>
  C10. Scan the input, resumes in order and projects within each resume in order. A
  project opens a key when no key seen so far matches its normalised name; otherwise it
  is folded into the entry of the matched key. The merged projects are the values of
  \<open>project_map\<close> in the order of its keys, and
  \<^item> the keys are distinct, and they are the normalised names of the opening projects in
    the order in which each was first opened;
  \<^item> every key holds a project of the input whose normalised name is that key, the last
    one that opened it;
  \<^item> for names that are not empty and a threshold of at most 100 no key is opened
    twice, and the output is exactly the list of the opening projects, in scan order;
  \<^item> cut the scan at any point: the keys the map holds at the cut are an initial segment
    of the keys it holds at the end, so a key stays where it was first inserted;
  \<^item> a project that is folded into an existing entry leaves the map as it is.
\<close>

theorem merge_projects_first_seen:
  assumes "concat proj_lists = seen @ later"
  shows "(\<exists>new_keys.
            map fst (fst (collect_projects proj_lists t h)) =
            map fst (fst (fold (proj_step t) seen ([], h))) @ new_keys) \<and>
         distinct (map fst (fst (collect_projects proj_lists t h))) \<and>
         fst (merge_projects proj_lists t h) = map snd (fst (collect_projects proj_lists t h)) \<and>
         (\<forall>p m h'. truthy (matched_key_of (strip (lower (proj_name (h' p)))) (map fst m) t) \<longrightarrow>
                   fst (proj_step t p (m, h')) = m) \<and>
         map fst (fst (collect_projects proj_lists t h)) =
           rev (remdups (rev (map fst (opened t (norm_name h) (concat proj_lists) [])))) \<and>
         (\<forall>k. map_of (fst (collect_projects proj_lists t h)) k =
              map_of (rev (opened t (norm_name h) (concat proj_lists) [])) k) \<and>
         (\<forall>k p. (k, p) \<in> set (fst (collect_projects proj_lists t h)) \<longrightarrow>
              p \<in> set (concat proj_lists) \<and> k = norm_name h p) \<and>
         (t \<le> 100 \<and> (\<forall>p \<in> set (concat proj_lists). norm_name h p \<noteq> []) \<longrightarrow>
              fst (merge_projects proj_lists t h) =
                map snd (opened t (norm_name h) (concat proj_lists) []))"
proof -
  have "collect_projects proj_lists t h =
        fold (proj_step t) later (fold (proj_step t) seen ([], h))"
    by (simp add: collect_projects_flat assms)
  then have 1: "\<exists>new_keys.
            map fst (fst (collect_projects proj_lists t h)) =
            map fst (fst (fold (proj_step t) seen ([], h))) @ new_keys"
    by (simp add: fold_proj_step_keys)
  have 2: "distinct (map fst (fst (collect_projects proj_lists t h)))"
    by (rule collect_projects_distinct)
  have 3: "fst (merge_projects proj_lists t h) = map snd (fst (collect_projects proj_lists t h))"
    by (simp add: merge_projects_def split: prod.splits)
  have 4: "\<forall>p m h'. truthy (matched_key_of (strip (lower (proj_name (h' p)))) (map fst m) t) \<longrightarrow>
                   fst (proj_step t p (m, h')) = m"
    by (simp add: proj_step_fold_keeps_map)
  have 5: "map fst (fst (collect_projects proj_lists t h)) =
           rev (remdups (rev (map fst (opened t (norm_name h) (concat proj_lists) []))))"
    by (rule collect_projects_keys)
  have 6: "\<forall>k. map_of (fst (collect_projects proj_lists t h)) k =
              map_of (rev (opened t (norm_name h) (concat proj_lists) [])) k"
    by (simp only: collect_projects_lookup) simp
  have 7: "\<forall>k p. (k, p) \<in> set (fst (collect_projects proj_lists t h)) \<longrightarrow>
              p \<in> set (concat proj_lists) \<and> k = norm_name h p"
    using collect_projects_entries by blast
  have 8: "t \<le> 100 \<and> (\<forall>p \<in> set (concat proj_lists). norm_name h p \<noteq> []) \<longrightarrow>
              fst (merge_projects proj_lists t h) =
                map snd (opened t (norm_name h) (concat proj_lists) [])"
    using collect_projects_plain [of t proj_lists h] 3 by simp
  show ?thesis
    by (intro conjI) (rule 1 2 3 4 5 6 7 8)+
qed

text \<open>
  The theorem at two resumes with three projects, held at the addresses 7, 3 and 5, the
  third a duplicate of the first: the projects at 7 and 3 open the keys \<open>app\<close> and
  \<open>cli\<close>, and the output is 7, 3.
\<close>

theorem merge_projects_first_seen_witness:
  "concat [[7], [3, 5]] = [7, 3] @ [5::nat] \<and>
   (85::int) \<le> 100 \<and>
   map (norm_name ((store_of [])(7 := Project_of ''App'' ''site'' [], 3 := Project_of ''CLI'' ''tool'' [],
                                5 := Project_of ''app'' ''dark mode'' []))) (concat [[7], [3, 5]]) =
     [''app'', ''cli'', ''app''] \<and>
   opened 85 (norm_name ((store_of [])(7 := Project_of ''App'' ''site'' [], 3 := Project_of ''CLI'' ''tool'' [],
                              5 := Project_of ''app'' ''dark mode'' []))) (concat [[7], [3, 5]]) [] =
     [(''app'', 7), (''cli'', 3)] \<and>
   fst (merge_projects [[7], [3, 5]] 85
      ((store_of [])(7 := Project_of ''App'' ''site'' [], 3 := Project_of ''CLI'' ''tool'' [],
                     5 := Project_of ''app'' ''dark mode'' []))) = [7, 3]"
proof -
  let ?h = "(store_of [])(7 := Project_of ''App'' ''site'' [], 3 := Project_of ''CLI'' ''tool'' [],
                          5 := Project_of ''app'' ''dark mode'' [])"
  have split: "concat [[7], [3, 5]] = [7, 3] @ [5::nat]" by simp
  have thr: "(85::int) \<le> 100" by simp
  have names: "\<forall>p \<in> set (concat [[7], [3, 5]]). norm_name ?h p \<noteq> []"
    by code_simp
  have ev: "opened 85 (norm_name ?h) (concat [[7], [3, 5]]) [] = [(''app'', 7), (''cli'', 3)]"
    by code_simp
  have "t \<le> 100 \<and> (\<forall>p \<in> set (concat [[7], [3, 5]]). norm_name ?h p \<noteq> []) \<longrightarrow>
        fst (merge_projects [[7], [3, 5]] t ?h) =
          map snd (opened t (norm_name ?h) (concat [[7], [3, 5]]) [])" for t
    using merge_projects_first_seen [OF split, of t ?h] by (elim conjE)
  with thr names have "fst (merge_projects [[7], [3, 5]] 85 ?h) =
          map snd (opened 85 (norm_name ?h) (concat [[7], [3, 5]]) [])"
    by blast
  then have out: "fst (merge_projects [[7], [3, 5]] 85 ?h) = [7, 3]"
    by (simp only: ev) simp
  have nn: "map (norm_name ?h) (concat [[7], [3, 5]]) = [''app'', ''cli'', ''app'']"
    by code_simp
  show ?thesis
    by (intro conjI) (rule split thr nn ev out)+
qed

text \<open>
  C7 fails on the code. \<open>_merge_projects\<close> puts the \<open>Project\<close> object of the first
  resume into its map and, when the second resume holds a project of the same name,
  assigns the joined description to that object: after the merge the project of the
  first input resume has another description than before. (\<open>_merge_skills\<close>, in
  contrast, aggregates into dictionaries of its own.)
\<close>

theorem merge_mutates_input_project:
  "proj_description
     (store_of [Project_of ''Portfolio Site'' ''built with React'' [''react''],
                Project_of ''portfolio site'' ''added dark mode'' [''css'']] 0) =
     ''built with React'' \<and>
   proj_description
     (snd (merge [Resume_of [] [] [0], Resume_of [] [] [1]] (Settings_of 30 85)
        (store_of [Project_of ''Portfolio Site'' ''built with React'' [''react''],
                   Project_of ''portfolio site'' ''added dark mode'' [''css'']])) 0) =
     ''built with React | added dark mode''"
  by code_simp

section \<open>The orchestrator: skill limit and cardinality\<close>

text \<open>
  C5, as the code has it. For a positive \<open>max_skills\<close> the merged skill list is the
  first \<open>max_skills\<close> entries of the list that \<open>_merge_skills\<close> returns, which is
  deduplicated and ranked in full, and so has at most \<open>max_skills\<close> entries. For
  \<open>max_skills = 0\<close> the guard \<open>if settings.max_skills and ...\<close> is false and the list
  is not cut: zero stands for no limit.
\<close>

theorem merge_max_skills:
  "(0 < max_skills settings \<longrightarrow>
      skills (fst (merge resumes settings h)) =
        take (nat (max_skills settings))
          (merge_skills (map skills resumes) (deduplicate_threshold settings)) \<and>
      int (length (skills (fst (merge resumes settings h)))) \<le> max_skills settings) \<and>
   (max_skills settings = 0 \<longrightarrow>
      skills (fst (merge resumes settings h)) =
        merge_skills (map skills resumes) (deduplicate_threshold settings))"
  by (auto simp: merge_def Let_def slice_to_def split: prod.splits)

text \<open>The theorem at a limit of two and three merged skills.\<close>

theorem merge_max_skills_witness:
  "0 < max_skills (Settings_of 2 85) \<and>
   skills (fst (merge [Resume_of [Skill_of ''Go'' 1, Skill_of ''Vue'' 1] [] [],
                       Resume_of [Skill_of ''go'' 1, Skill_of ''AWS'' 1] [] []]
                 (Settings_of 2 85) (store_of []))) =
     [(Skill_of ''Go'' 1)\<lparr>skill_frequency := 2\<rparr>, Skill_of ''Vue'' 1] \<and>
   int (length (skills (fst (merge [Resume_of [Skill_of ''Go'' 1, Skill_of ''Vue'' 1] [] [],
                       Resume_of [Skill_of ''go'' 1, Skill_of ''AWS'' 1] [] []]
                 (Settings_of 2 85) (store_of []))))) \<le> max_skills (Settings_of 2 85)"
proof -
  let ?rs = "[Resume_of [Skill_of ''Go'' 1, Skill_of ''Vue'' 1] [] [],
              Resume_of [Skill_of ''go'' 1, Skill_of ''AWS'' 1] [] []] :: ref ParsedResume list"
  have pos: "0 < max_skills (Settings_of 2 85)"
    by (simp add: Settings_of_def)
  have val: "skills (fst (merge ?rs (Settings_of 2 85) (store_of []))) =
     [(Skill_of ''Go'' 1)\<lparr>skill_frequency := 2\<rparr>, Skill_of ''Vue'' 1]"
    by code_simp
  have len: "int (length (skills (fst (merge ?rs (Settings_of 2 85) (store_of []))))) \<le>
             max_skills (Settings_of 2 85)"
    using merge_max_skills [of "Settings_of 2 85" ?rs "store_of []"] pos by blast
  show ?thesis
    by (intro conjI) (rule pos val len)+
qed

text \<open>
  C5 as it is stated fails at \<open>max_skills = 0\<close>: two resumes with one skill each give
  two merged skills.
\<close>

theorem merge_max_skills_zero_counterexample:
  "max_skills (Settings_of 0 85) = 0 \<and>
   length (skills (fst (merge [Resume_of [Skill_of ''Go'' 1] [] [], Resume_of [Skill_of ''Vue'' 1] [] []]
                          (Settings_of 0 85) (store_of [])))) = 2"
  by code_simp

text \<open>
  C8. The merge endpoint answers a request with fewer than two resumes with the error
  400 "Need at least 2 resumes to merge" and leaves the store as it was: no merger
  runs. A request with two or more resumes never gets a 400; with settings given, it gets
  the merged resume.
\<close>

theorem merge_resumes_cardinality:
  "(length (req_resumes request) < 2 \<longrightarrow>
      merge_resumes request h =
        (Inl (HTTPException 400 ''Need at least 2 resumes to merge''), h)) \<and>
   (2 \<le> length (req_resumes request) \<longrightarrow>
      (\<forall>d. fst (merge_resumes request h) \<noteq> Inl (HTTPException 400 d)) \<and>
      (\<forall>settings. req_settings request = Some settings \<longrightarrow>
         merge_resumes request h =
           (Inr \<lparr> success = True, merged_resume = fst (merge (req_resumes request) settings h) \<rparr>,
            snd (merge (req_resumes request) settings h))))"
  by (auto simp: merge_resumes_def split: option.splits prod.splits)

text \<open>The theorem at a request with one resume and at a request with two.\<close>

theorem merge_resumes_cardinality_witness:
  "length (req_resumes \<lparr> req_resumes = [Resume_of [Skill_of ''Go'' 1] [] []],
                         req_settings = Some (Settings_of 30 85) \<rparr>) < 2 \<and>
   merge_resumes \<lparr> req_resumes = [Resume_of [Skill_of ''Go'' 1] [] []],
                   req_settings = Some (Settings_of 30 85) \<rparr> (store_of []) =
     (Inl (HTTPException 400 ''Need at least 2 resumes to merge''), store_of []) \<and>
   2 \<le> length (req_resumes \<lparr> req_resumes = [Resume_of [Skill_of ''Go'' 1] [] [], Resume_of [] [] []],
                              req_settings = Some (Settings_of 30 85) \<rparr>) \<and>
   fst (merge_resumes \<lparr> req_resumes = [Resume_of [Skill_of ''Go'' 1] [] [], Resume_of [] [] []],
                        req_settings = Some (Settings_of 30 85) \<rparr> (store_of [])) =
     Inr \<lparr> success = True,
           merged_resume = fst (merge [Resume_of [Skill_of ''Go'' 1] [] [], Resume_of [] [] []]
                                  (Settings_of 30 85) (store_of [])) \<rparr>"
proof -
  let ?one = "\<lparr> req_resumes = [Resume_of [Skill_of ''Go'' 1] [] []] :: ref ParsedResume list,
                 req_settings = Some (Settings_of 30 85) \<rparr>"
  let ?two = "\<lparr> req_resumes = [Resume_of [Skill_of ''Go'' 1] [] [], Resume_of [] [] []] :: ref ParsedResume list,
                 req_settings = Some (Settings_of 30 85) \<rparr>"
  have few: "length (req_resumes ?one) < 2" by simp
  have enough: "2 \<le> length (req_resumes ?two)" by simp
  have set: "req_settings ?two = Some (Settings_of 30 85)" by simp
  have r1: "merge_resumes ?one (store_of []) =
      (Inl (HTTPException 400 ''Need at least 2 resumes to merge''), store_of [])"
    using merge_resumes_cardinality [of ?one "store_of []"] few by blast
  have "merge_resumes ?two (store_of []) =
      (Inr \<lparr> success = True, merged_resume = fst (merge (req_resumes ?two) (Settings_of 30 85) (store_of [])) \<rparr>,
       snd (merge (req_resumes ?two) (Settings_of 30 85) (store_of [])))"
    using merge_resumes_cardinality [of ?two "store_of []"] enough set by blast
  then have r2: "fst (merge_resumes ?two (store_of [])) =
      Inr \<lparr> success = True,
            merged_resume = fst (merge [Resume_of [Skill_of ''Go'' 1] [] [], Resume_of [] [] []]
                                   (Settings_of 30 85) (store_of [])) \<rparr>"
    by simp
  show ?thesis
    by (intro conjI) (rule few r1 enough r2)+
qed

section \<open>The parser: the phone pattern\<close>

lemma rx_error_phone: "rx_error phone_pattern = Some Nothing_to_repeat"
  by (simp add: phone_pattern_def digits_def sep_def)

lemma rx_error_email: "rx_error email_pattern = None"
  by (simp add: email_pattern_def)

text \<open>
  Compiling apart, the tree of the phone pattern has no match in any text: after the
  position \<open>$\<close> comes the end of the text, or its last line feed, and never a digit.
\<close>

lemma drop_at_end:
  assumes "i = length s \<or> (Suc i = length s \<and> s ! i = c)"
  shows "drop i s = [] \<or> drop i s = [c]"
proof (cases "i = length s")
  case True
  then show ?thesis by simp
next
  case False
  with assms have i: "Suc i = length s" "s ! i = c" by auto
  then have "i < length s" by simp
  then have "drop i s = s ! i # drop (Suc i) s" by (rule Cons_nth_drop_Suc[symmetric])
  with i show ?thesis by simp
qed

lemma no_digits_at_end:
  assumes "i = length s \<or> (Suc i = length s \<and> s ! i = CHR 0x0A)"
  shows "rx_match ic da (digits 3 3) s i g = []"
proof -
  have "drop i s = [] \<or> drop i s = [CHR 0x0A]"
    using assms by (rule drop_at_end)
  then have "takeWhile (item_ok ic da (Cls is_digit)) (drop i s) = []"
    by (auto simp: is_digit_def lower_char_def upper_char_def)
  then show ?thesis
    by (simp add: digits_def)
qed

lemma eol_then_digits:
  "rx_match ic da (Seq Eol (Seq (Opt Eol) (Seq (digits 3 3) r))) s i g = []"
  by (auto simp: no_digits_at_end)

lemma seq_no_match:
  "(\<And>j g'. rx_match ic da b s j g' = []) \<Longrightarrow> rx_match ic da (Seq a b) s i g = []"
  by simp

lemma phone_pattern_no_match: "rx_match ic da phone_pattern s i g = []"
proof -
  have "phone_pattern =
      Seq (Opt (Grp (seqs [Opt (One (Lit (CHR ''+''))), digits 1 3, Opt sep])))
        (Seq Eol (Seq (Opt Eol) (Seq (digits 3 3)
           (seqs [Eol, Opt Eol, Opt sep, digits 3 3, Opt sep, digits 4 4]))))"
    by (simp add: phone_pattern_def)
  then have "rx_match ic da phone_pattern s i g =
      rx_match ic da
        (Seq (Opt (Grp (seqs [Opt (One (Lit (CHR ''+''))), digits 1 3, Opt sep])))
          (Seq Eol (Seq (Opt Eol) (Seq (digits 3 3)
             (seqs [Eol, Opt Eol, Opt sep, digits 3 3, Opt sep, digits 4 4]))))) s i g"
    by (rule arg_cong)
  also have "\<dots> = []"
    by (rule seq_no_match) (rule eol_then_digits)
  finally show ?thesis .
qed

lemma first_match_phone: "first_match ic da phone_pattern s positions = None"
  by (induction positions) (simp_all add: phone_pattern_no_match)

text \<open>
  C2 fails on the code. The phone pattern has \<open>$$?\<close> where the optional parentheses
  belong, and \<open>re\<close> refuses to repeat the position \<open>$\<close>: for every text the search for
  the phone number raises "nothing to repeat", and so does \<open>_parse_personal_info\<close>. No
  text yields a phone number.
\<close>

theorem parse_personal_info_raises:
  "parse_personal_info text = Inl Nothing_to_repeat"
  by (simp add: parse_personal_info_def re_search_def rx_error_phone rx_error_email
      and_then_def Let_def)

text \<open>
  C9 fails on the code, by the same pattern: on the empty text the extraction raises.
\<close>

theorem parse_text_empty_raises:
  "parse_text [] = Inl Nothing_to_repeat"
proof -
  have "parse_personal_info [] = Inl Nothing_to_repeat"
    by (simp add: parse_personal_info_def re_search_def rx_error_phone rx_error_email
        and_then_def Let_def)
  then show ?thesis
    by (simp add: parse_text_def and_then_def)
qed

text \<open>
  The extractors that do not search for the phone number tolerate the empty text: they
  return empty lists.
\<close>

lemma parse_sections_empty:
  "parse_skills [] = [] \<and> parse_experience [] = Inr [] \<and>
   parse_education [] = Inr [] \<and> parse_projects [] = Inr []"
  by code_simp

end
